theory Spec2Isabelle
  imports Complex_Main "HOL-Library.Word"
begin

unbundle bit_operations_syntax

section \<open>Single-precision values\<close>

text \<open>
  The C type \<^verbatim>\<open>float\<close> of the two templates. A value is a finite number, one of the two
  infinities, or NaN. Finite arithmetic is exact (rounding and overflow to infinity are
  not modelled, and zero carries no sign); the special values follow IEEE 754: every
  comparison with NaN is false, NaN propagates through arithmetic, and the invalid
  operations (\<open>\<infinity> - \<infinity>\<close>, \<open>0 * \<infinity>\<close>, \<open>0 / 0\<close>, \<open>\<infinity> / \<infinity>\<close>) give NaN.
  A decimal constant of the source such as \<^verbatim>\<open>0.001f\<close> is the number it is written as.
\<close>

datatype float = NaN | NInf | Fin real | PInf

fun float_less :: "float \<Rightarrow> float \<Rightarrow> bool" where
  "float_less NaN _ = False"
| "float_less _ NaN = False"
| "float_less NInf NInf = False"
| "float_less NInf _ = True"
| "float_less _ NInf = False"
| "float_less PInf _ = False"
| "float_less _ PInf = True"
| "float_less (Fin x) (Fin y) = (x < y)"

fun float_less_eq :: "float \<Rightarrow> float \<Rightarrow> bool" where
  "float_less_eq NaN _ = False"
| "float_less_eq _ NaN = False"
| "float_less_eq NInf _ = True"
| "float_less_eq _ PInf = True"
| "float_less_eq PInf _ = False"
| "float_less_eq _ NInf = False"
| "float_less_eq (Fin x) (Fin y) = (x \<le> y)"

fun float_neg :: "float \<Rightarrow> float" where
  "float_neg NaN = NaN"
| "float_neg NInf = PInf"
| "float_neg PInf = NInf"
| "float_neg (Fin x) = Fin (- x)"

fun float_add :: "float \<Rightarrow> float \<Rightarrow> float" where
  "float_add NaN _ = NaN"
| "float_add _ NaN = NaN"
| "float_add PInf NInf = NaN"
| "float_add NInf PInf = NaN"
| "float_add PInf _ = PInf"
| "float_add _ PInf = PInf"
| "float_add NInf _ = NInf"
| "float_add _ NInf = NInf"
| "float_add (Fin x) (Fin y) = Fin (x + y)"

text \<open>The infinity with the sign of \<open>x\<close>, for \<open>x \<noteq> 0\<close>.\<close>

definition signed_inf :: "real \<Rightarrow> float" where
  "signed_inf x = (if 0 < x then PInf else NInf)"

fun float_mul :: "float \<Rightarrow> float \<Rightarrow> float" where
  "float_mul NaN _ = NaN"
| "float_mul _ NaN = NaN"
| "float_mul PInf PInf = PInf"
| "float_mul PInf NInf = NInf"
| "float_mul NInf PInf = NInf"
| "float_mul NInf NInf = PInf"
| "float_mul PInf (Fin y) = (if y = 0 then NaN else signed_inf y)"
| "float_mul NInf (Fin y) = (if y = 0 then NaN else signed_inf (- y))"
| "float_mul (Fin x) PInf = (if x = 0 then NaN else signed_inf x)"
| "float_mul (Fin x) NInf = (if x = 0 then NaN else signed_inf (- x))"
| "float_mul (Fin x) (Fin y) = Fin (x * y)"

fun float_div :: "float \<Rightarrow> float \<Rightarrow> float" where
  "float_div NaN _ = NaN"
| "float_div _ NaN = NaN"
| "float_div PInf PInf = NaN"
| "float_div PInf NInf = NaN"
| "float_div NInf PInf = NaN"
| "float_div NInf NInf = NaN"
| "float_div PInf (Fin y) = (if y < 0 then NInf else PInf)"
| "float_div NInf (Fin y) = (if y < 0 then PInf else NInf)"
| "float_div (Fin x) PInf = Fin 0"
| "float_div (Fin x) NInf = Fin 0"
| "float_div (Fin x) (Fin y) =
     (if y = 0 then (if x = 0 then NaN else signed_inf x) else Fin (x / y))"

instantiation float :: "{ord, plus, minus, uminus, times, inverse}"
begin

definition less_float :: "float \<Rightarrow> float \<Rightarrow> bool" where
  "less_float a b = float_less a b"

definition less_eq_float :: "float \<Rightarrow> float \<Rightarrow> bool" where
  "less_eq_float a b = float_less_eq a b"

definition plus_float :: "float \<Rightarrow> float \<Rightarrow> float" where
  "plus_float a b = float_add a b"

definition uminus_float :: "float \<Rightarrow> float" where
  "uminus_float a = float_neg a"

definition minus_float :: "float \<Rightarrow> float \<Rightarrow> float" where
  "minus_float a b = float_add a (float_neg b)"

definition times_float :: "float \<Rightarrow> float \<Rightarrow> float" where
  "times_float a b = float_mul a b"

definition divide_float :: "float \<Rightarrow> float \<Rightarrow> float" where
  "divide_float a b = float_div a b"

definition inverse_float :: "float \<Rightarrow> float" where
  "inverse_float a = float_div (Fin 1) a"

instance ..

end

text \<open>Conversion of a C \<^verbatim>\<open>int\<close> to \<^verbatim>\<open>float\<close>, as in \<^verbatim>\<open>velocity / 127.0f\<close>.\<close>

definition float_of_int :: "int \<Rightarrow> float" where
  "float_of_int i = Fin (real_of_int i)"

text \<open>A value is a number when it is not NaN, and finite when it is \<open>Fin x\<close>.\<close>

definition is_nan :: "float \<Rightarrow> bool" where
  "is_nan a = (case a of NaN \<Rightarrow> True | _ \<Rightarrow> False)"

definition is_finite :: "float \<Rightarrow> bool" where
  "is_finite a = (case a of Fin _ \<Rightarrow> True | _ \<Rightarrow> False)"

section \<open>Library functions of \<^verbatim>\<open>math.h\<close>\<close>

text \<open>\<^verbatim>\<open>sinf\<close>: the sine of a finite number; NaN for NaN and for the infinities.\<close>

definition sinf :: "float \<Rightarrow> float" where
  "sinf a = (case a of Fin r \<Rightarrow> Fin (sin r) | _ \<Rightarrow> NaN)"

definition tanhf :: "float \<Rightarrow> float" where
  "tanhf a = (case a of NaN \<Rightarrow> NaN | NInf \<Rightarrow> Fin (- 1) | Fin r \<Rightarrow> Fin (tanh r) | PInf \<Rightarrow> Fin 1)"

definition fabsf :: "float \<Rightarrow> float" where
  "fabsf a = (case a of NaN \<Rightarrow> NaN | NInf \<Rightarrow> PInf | Fin r \<Rightarrow> Fin \<bar>r\<bar> | PInf \<Rightarrow> PInf)"

text \<open>Rounding toward zero, as C converts and as \<^verbatim>\<open>fmodf\<close> takes its quotient.\<close>

definition trunc :: "real \<Rightarrow> int" where
  "trunc r = (if 0 \<le> r then \<lfloor>r\<rfloor> else \<lceil>r\<rceil>)"

definition fmodf :: "float \<Rightarrow> float \<Rightarrow> float" where
  "fmodf a b =
     (case a of
        Fin x \<Rightarrow>
          (case b of
             NaN \<Rightarrow> NaN
           | Fin y \<Rightarrow> if y = 0 then NaN else Fin (x - real_of_int (trunc (x / y)) * y)
           | _ \<Rightarrow> Fin x)
      | _ \<Rightarrow> NaN)"

text \<open>
  \<^verbatim>\<open>powf(2.0f, y)\<close>: the source raises no other base to a power.
\<close>

definition powf_two :: "float \<Rightarrow> float" where
  "powf_two y = (case y of NaN \<Rightarrow> NaN | NInf \<Rightarrow> Fin 0 | Fin r \<Rightarrow> Fin (2 powr r) | PInf \<Rightarrow> PInf)"

text \<open>
  The cast \<^verbatim>\<open>(int)x\<close> of a float. C leaves it undefined for NaN and for values outside the
  range of \<^verbatim>\<open>int\<close>; the model saturates there, as the conversion of the WebAssembly
  target does.
\<close>

definition int_of_float :: "float \<Rightarrow> int" where
  "int_of_float a =
     (case a of
        NaN \<Rightarrow> 0
      | NInf \<Rightarrow> - 2147483648
      | Fin r \<Rightarrow> max (- 2147483648) (min 2147483647 (trunc r))
      | PInf \<Rightarrow> 2147483647)"

section \<open>Helpers shared by both templates\<close>

text \<open>
  \<^verbatim>\<open>static inline float clamp(float value, float min, float max)\<close>, the same in
  \<^verbatim>\<open>effect_template.c\<close> and \<^verbatim>\<open>instrument_template.c\<close>.
\<close>

definition clamp :: "float \<Rightarrow> float \<Rightarrow> float \<Rightarrow> float" where
  "clamp v mn mx = (if v < mn then mn else if v > mx then mx else v)"

section \<open>The effect template: state and parameters\<close>

abbreviation (input) NUM_CHANNELS :: nat where "NUM_CHANNELS \<equiv> 2"
abbreviation (input) NUM_PARAMETERS_effect :: int where "NUM_PARAMETERS_effect \<equiv> 4"

text \<open>
  The file-scope variables of \<^verbatim>\<open>effect_template.c\<close>. An array is a function of its
  index; the code only ever reads and writes indices inside the array. The delay buffer
  (allocated by \<^verbatim>\<open>init\<close>, zeroed by \<^verbatim>\<open>reset\<close>, freed by \<^verbatim>\<open>dispose\<close>) is read by
  no processing path and is left out.
\<close>

record effect_state =
  sampleRate_effect :: float
  bufferSize_effect :: int
  params_effect :: "nat \<Rightarrow> float"
  filterState_effect :: "nat \<Rightarrow> float"

text \<open>The static initialisers.\<close>

definition initial_effect :: effect_state where
  "initial_effect =
     \<lparr> sampleRate_effect = Fin 44100,
       bufferSize_effect = 128,
       params_effect = (\<lambda>_. Fin 0)(0 := Fin 1, 1 := Fin 0.5, 2 := Fin 1000, 3 := Fin 0.5),
       filterState_effect = (\<lambda>_. Fin 0) \<rparr>"

definition getParameter_effect :: "effect_state \<Rightarrow> int \<Rightarrow> float" where
  "getParameter_effect s index =
     (if index \<ge> 0 \<and> index < NUM_PARAMETERS_effect then params_effect s (nat index)
      else Fin 0)"

definition setParameter_effect :: "effect_state \<Rightarrow> int \<Rightarrow> float \<Rightarrow> effect_state" where
  "setParameter_effect s index v =
     (if index \<ge> 0 \<and> index < NUM_PARAMETERS_effect then
        (if index = 0 then s\<lparr>params_effect := (params_effect s)(0 := clamp v (Fin 0) (Fin 2))\<rparr>
         else if index = 1 then s\<lparr>params_effect := (params_effect s)(1 := clamp v (Fin 0) (Fin 1))\<rparr>
         else if index = 2 then s\<lparr>params_effect := (params_effect s)(2 := clamp v (Fin 20) (Fin 20000))\<rparr>
         else if index = 3 then s\<lparr>params_effect := (params_effect s)(3 := clamp v (Fin 0) (Fin 1))\<rparr>
         else s)
      else s)"

text \<open>
  The declared range of each effect parameter, from the comments of the \<^verbatim>\<open>params\<close>
  initialiser: gain 0-2, mix 0-1, cutoff 20-20000, resonance 0-1.
\<close>

definition range_effect :: "int \<Rightarrow> float \<times> float" where
  "range_effect index =
     (if index = 0 then (Fin 0, Fin 2)
      else if index = 1 then (Fin 0, Fin 1)
      else if index = 2 then (Fin 20, Fin 20000)
      else (Fin 0, Fin 1))"

section \<open>The effect template: signal path\<close>

definition lerp :: "float \<Rightarrow> float \<Rightarrow> float \<Rightarrow> float" where
  "lerp a b t = a + (b - a) * t"

text \<open>
  \<^verbatim>\<open>lowpass(float input, float* state, float cutoff)\<close>, with the value of \<^verbatim>\<open>*state\<close> as
  \<open>state\<close>. The function stores its result in \<^verbatim>\<open>*state\<close> and returns it: the value below
  is both.
\<close>

definition lowpass :: "effect_state \<Rightarrow> float \<Rightarrow> float \<Rightarrow> float \<Rightarrow> float" where
  "lowpass s input state cutoff =
     (let rc = Fin 1 / (Fin 2 * Fin 3.14159265 * cutoff);
          dt = Fin 1 / sampleRate_effect s;
          alpha = dt / (rc + dt)
      in lerp state input alpha)"

definition init_effect :: "effect_state \<Rightarrow> float \<Rightarrow> int \<Rightarrow> effect_state" where
  "init_effect s sr bs =
     s\<lparr>sampleRate_effect := sr, bufferSize_effect := bs,
       filterState_effect := (filterState_effect s)(0 := Fin 0, 1 := Fin 0)\<rparr>"

text \<open>
  The body of both loops of the two processing functions: the sample read at \<open>src\<close>
  goes through the filter of channel \<open>ch\<close>, and the result is written at \<open>dst\<close>.
\<close>

definition process_one ::
  "float \<Rightarrow> float \<Rightarrow> float \<Rightarrow> (nat \<Rightarrow> float) \<Rightarrow> nat \<Rightarrow> nat \<Rightarrow> nat
     \<Rightarrow> effect_state \<times> (nat \<Rightarrow> float) \<Rightarrow> effect_state \<times> (nat \<Rightarrow> float)" where
  "process_one gain mix cutoff input ch src dst = (\<lambda>(s, output).
     (let inp = input src;
          filtered = lowpass s inp (filterState_effect s ch) cutoff;
          s = s\<lparr>filterState_effect := (filterState_effect s)(ch := filtered)\<rparr>;
          processed = lerp inp filtered mix
      in (s, output(dst := processed * gain))))"

text \<open>
  \<^verbatim>\<open>process(float* input, float* output, int numSamples)\<close>, interleaved stereo, for a
  sample count that is not negative. A buffer is a function of the index; the two
  buffers are separate objects. Returns the state and the output buffer.
\<close>

definition process_effect ::
  "effect_state \<Rightarrow> (nat \<Rightarrow> float) \<Rightarrow> (nat \<Rightarrow> float) \<Rightarrow> nat
     \<Rightarrow> effect_state \<times> (nat \<Rightarrow> float)" where
  "process_effect s input output numSamples =
     (let gain = params_effect s 0;
          mix = params_effect s 1;
          cutoff = params_effect s 2
      in fold (\<lambda>i. fold (\<lambda>ch. let idx = i * NUM_CHANNELS + ch
                               in process_one gain mix cutoff input ch idx idx)
                      [0..<NUM_CHANNELS])
           [0..<numSamples] (s, output))"

text \<open>
  \<^verbatim>\<open>processBlock(float* input, float* output, int numSamples, int numChannels)\<close>, planar:
  channel \<open>ch\<close> is the region of \<open>numSamples\<close> cells from \<open>ch * numSamples\<close> on. The loop
  runs while \<^verbatim>\<open>ch < numChannels && ch < NUM_CHANNELS\<close>.
\<close>

definition processBlock ::
  "effect_state \<Rightarrow> (nat \<Rightarrow> float) \<Rightarrow> (nat \<Rightarrow> float) \<Rightarrow> nat \<Rightarrow> int
     \<Rightarrow> effect_state \<times> (nat \<Rightarrow> float)" where
  "processBlock s input output numSamples numChannels =
     (let gain = params_effect s 0;
          mix = params_effect s 1;
          cutoff = params_effect s 2
      in fold (\<lambda>ch. fold (\<lambda>i. process_one gain mix cutoff input ch
                                 (ch * numSamples + i) (ch * numSamples + i))
                       [0..<numSamples])
           [0..<min (nat numChannels) NUM_CHANNELS] (s, output))"

definition reset_effect :: "effect_state \<Rightarrow> effect_state" where
  "reset_effect s = s\<lparr>filterState_effect := (filterState_effect s)(0 := Fin 0, 1 := Fin 0)\<rparr>"

section \<open>The instrument template: state and parameters\<close>

abbreviation (input) MAX_VOICES :: nat where "MAX_VOICES \<equiv> 16"
abbreviation (input) NUM_PARAMETERS_instrument :: int where "NUM_PARAMETERS_instrument \<equiv> 8"

text \<open>
  \<^verbatim>\<open>struct Voice\<close>. The fields \<^verbatim>\<open>active\<close> and \<^verbatim>\<open>envStage\<close> are C ints: a voice is
  active when \<^verbatim>\<open>active\<close> is not 0, and the stages are 0 = off (idle), 1 = attack,
  2 = decay, 3 = sustain, 4 = release. The two cells of \<^verbatim>\<open>filterState\<close> are two fields, and the field
  \<^verbatim>\<open>note\<close> is \<open>voice_note\<close>.
\<close>

record voice =
  active :: int
  voice_note :: int
  velocity :: float
  phase :: float
  phaseIncrement :: float
  envelope :: float
  envStage :: int
  envTarget :: float
  filterState0 :: float
  filterState1 :: float
  lfoPhase :: float

text \<open>The file-scope variables of \<^verbatim>\<open>instrument_template.c\<close>.\<close>

record instrument_state =
  sampleRate :: float
  bufferSize :: int
  voices :: "nat \<Rightarrow> voice"
  params :: "nat \<Rightarrow> float"
  masterVolume :: float
  pitchBendValue :: float
  modWheel :: float
  noiseState :: "32 word"

definition zero_voice :: voice where
  "zero_voice =
     \<lparr> active = 0, voice_note = 0, velocity = Fin 0, phase = Fin 0, phaseIncrement = Fin 0,
       envelope = Fin 0, envStage = 0, envTarget = Fin 0, filterState0 = Fin 0,
       filterState1 = Fin 0, lfoPhase = Fin 0 \<rparr>"

text \<open>The static initialisers (the voice array is zero-initialised storage).\<close>

definition initial_instrument :: instrument_state where
  "initial_instrument =
     \<lparr> sampleRate = Fin 44100,
       bufferSize = 128,
       voices = (\<lambda>_. zero_voice),
       params = (\<lambda>_. Fin 0)(0 := Fin 0, 1 := Fin 0.01, 2 := Fin 0.1, 3 := Fin 0.7,
                  4 := Fin 0.3, 5 := Fin 5000, 6 := Fin 0.3, 7 := Fin 0),
       masterVolume = Fin 0.8,
       pitchBendValue = Fin 0,
       modWheel = Fin 0,
       noiseState = 12345 \<rparr>"

definition getParameter_instrument :: "instrument_state \<Rightarrow> int \<Rightarrow> float" where
  "getParameter_instrument s index =
     (if index \<ge> 0 \<and> index < NUM_PARAMETERS_instrument then params s (nat index)
      else Fin 0)"

definition setParameter_instrument ::
  "instrument_state \<Rightarrow> int \<Rightarrow> float \<Rightarrow> instrument_state" where
  "setParameter_instrument s index v =
     (if index \<ge> 0 \<and> index < NUM_PARAMETERS_instrument then
        (if index = 0 then s\<lparr>params := (params s)(0 := clamp v (Fin 0) (Fin 4))\<rparr>
         else if index = 1 then s\<lparr>params := (params s)(1 := clamp v (Fin 0.001) (Fin 2))\<rparr>
         else if index = 2 then s\<lparr>params := (params s)(2 := clamp v (Fin 0.001) (Fin 2))\<rparr>
         else if index = 3 then s\<lparr>params := (params s)(3 := clamp v (Fin 0) (Fin 1))\<rparr>
         else if index = 4 then s\<lparr>params := (params s)(4 := clamp v (Fin 0.001) (Fin 5))\<rparr>
         else if index = 5 then s\<lparr>params := (params s)(5 := clamp v (Fin 20) (Fin 20000))\<rparr>
         else if index = 6 then s\<lparr>params := (params s)(6 := clamp v (Fin 0) (Fin 1))\<rparr>
         else if index = 7 then s\<lparr>params := (params s)(7 := clamp v (Fin (- 1)) (Fin 1))\<rparr>
         else s)
      else s)"

text \<open>
  The declared range of each instrument parameter, from the comments of the
  \<^verbatim>\<open>params\<close> initialiser: waveform 0-4, attack 0.001-2, decay 0.001-2, sustain 0-1,
  release 0.001-5, cutoff 20-20000, resonance 0-1, detune -1 to 1.
\<close>

definition range_instrument :: "int \<Rightarrow> float \<times> float" where
  "range_instrument index =
     (if index = 0 then (Fin 0, Fin 4)
      else if index = 1 then (Fin 0.001, Fin 2)
      else if index = 2 then (Fin 0.001, Fin 2)
      else if index = 3 then (Fin 0, Fin 1)
      else if index = 4 then (Fin 0.001, Fin 5)
      else if index = 5 then (Fin 20, Fin 20000)
      else if index = 6 then (Fin 0, Fin 1)
      else (Fin (- 1), Fin 1))"

section \<open>The instrument template: signal path and MIDI\<close>

subsection \<open>Helper functions\<close>

text \<open>\<^verbatim>\<open>#define PI 3.14159265358979323846f\<close> and \<^verbatim>\<open>#define TWO_PI (2.0f * PI)\<close>.\<close>

definition PI :: float where
  "PI = Fin 3.14159265358979323846"

definition TWO_PI :: float where
  "TWO_PI = Fin 2 * PI"

definition noteToFrequency :: "int \<Rightarrow> float" where
  "noteToFrequency n = Fin 440 * powf_two (float_of_int (n - 69) / Fin 12)"

definition frequencyToPhaseIncrement :: "instrument_state \<Rightarrow> float \<Rightarrow> float" where
  "frequencyToPhaseIncrement s freq = freq / sampleRate s"

definition polyblep :: "float \<Rightarrow> float \<Rightarrow> float" where
  "polyblep t dt =
     (if t < dt then
        (let t = t / dt in t + t - t * t - Fin 1)
      else if t > Fin 1 - dt then
        (let t = (t - Fin 1) / dt in t * t + t + t + Fin 1)
      else Fin 0)"

text \<open>
  \<^verbatim>\<open>noise()\<close>: steps the generator (unsigned 32-bit arithmetic wraps) and returns the
  sample together with the new \<^verbatim>\<open>noiseState\<close>.
\<close>

definition noise :: "32 word \<Rightarrow> float \<times> 32 word" where
  "noise ns =
     (let ns = ns * 1103515245 + 12345
      in (Fin (real (unat ((drop_bit 16 ns) AND 0x7FFF))) / Fin 16383.5 - Fin 1, ns))"

subsection \<open>Oscillator\<close>

abbreviation (input) WAVE_SINE :: int where "WAVE_SINE \<equiv> 0"
abbreviation (input) WAVE_SQUARE :: int where "WAVE_SQUARE \<equiv> 1"
abbreviation (input) WAVE_SAW :: int where "WAVE_SAW \<equiv> 2"
abbreviation (input) WAVE_TRIANGLE :: int where "WAVE_TRIANGLE \<equiv> 3"
abbreviation (input) WAVE_NOISE :: int where "WAVE_NOISE \<equiv> 4"

text \<open>
  \<^verbatim>\<open>generateOscillator(Voice* v, WaveformType waveform)\<close>: returns the sample, the voice
  with its phase advanced, and the noise generator's state. The \<^verbatim>\<open>switch\<close> has no
  default: for any other waveform value the sample stays 0.
\<close>

definition generateOscillator :: "voice \<Rightarrow> int \<Rightarrow> 32 word \<Rightarrow> float \<times> voice \<times> 32 word" where
  "generateOscillator v waveform ns =
     (let t = phase v;
          dt = phaseIncrement v;
          (sample, ns) =
            (if waveform = WAVE_SINE then (sinf (t * TWO_PI), ns)
             else if waveform = WAVE_SQUARE then
               (let sample = (if t < Fin 0.5 then Fin 1 else Fin (- 1));
                    sample = sample - polyblep t dt;
                    sample = sample + polyblep (fmodf (t + Fin 0.5) (Fin 1)) dt
                in (sample, ns))
             else if waveform = WAVE_SAW then
               (let sample = Fin 2 * t - Fin 1;
                    sample = sample - polyblep t dt
                in (sample, ns))
             else if waveform = WAVE_TRIANGLE then
               (Fin 4 * fabsf (t - Fin 0.5) - Fin 1, ns)
             else if waveform = WAVE_NOISE then noise ns
             else (Fin 0, ns));
          v = v\<lparr>phase := phase v + dt\<rparr>;
          v = (if phase v \<ge> Fin 1 then v\<lparr>phase := phase v - Fin 1\<rparr> else v)
      in (sample, v, ns))"

subsection \<open>Envelope\<close>

text \<open>
  \<^verbatim>\<open>updateEnvelope(Voice* v)\<close>. The state gives \<^verbatim>\<open>params\<close> and \<^verbatim>\<open>sampleRate\<close>. The
  \<^verbatim>\<open>switch\<close> has cases 1 to 4 only: in stage 0, and in any other stage, nothing happens.
\<close>

definition updateEnvelope :: "instrument_state \<Rightarrow> voice \<Rightarrow> voice" where
  "updateEnvelope s v =
     (let attack = params s 1;
          decay = params s 2;
          sustain = params s 3;
          release = params s 4
      in if envStage v = 1 then
           (let rate = Fin 1 / (attack * sampleRate s);
                v = v\<lparr>envelope := envelope v + rate\<rparr>
            in if envelope v \<ge> Fin 1 then v\<lparr>envelope := Fin 1, envStage := 2\<rparr> else v)
         else if envStage v = 2 then
           (let rate = (Fin 1 - sustain) / (decay * sampleRate s);
                v = v\<lparr>envelope := envelope v - rate\<rparr>
            in if envelope v \<le> sustain then v\<lparr>envelope := sustain, envStage := 3\<rparr> else v)
         else if envStage v = 3 then v
         else if envStage v = 4 then
           (let rate = envelope v / (release * sampleRate s);
                v = v\<lparr>envelope := envelope v - rate\<rparr>
            in if envelope v \<le> Fin 0.001
               then v\<lparr>envelope := Fin 0, envStage := 0, active := 0\<rparr> else v)
         else v)"

subsection \<open>Filter\<close>

text \<open>
  \<^verbatim>\<open>processFilter(Voice* v, float input)\<close>: returns the lowpass output and the voice with
  its two filter cells updated.
\<close>

definition processFilter :: "instrument_state \<Rightarrow> voice \<Rightarrow> float \<Rightarrow> float \<times> voice" where
  "processFilter s v input =
     (let cutoff = params s 5;
          resonance = params s 6;
          envMod = envelope v * Fin 0.5;
          cutoff = cutoff * (Fin 1 + envMod);
          cutoff = clamp cutoff (Fin 20) (Fin 20000);
          f = Fin 2 * sinf (PI * cutoff / sampleRate s);
          q = Fin 1 - resonance * Fin 0.9;
          low = filterState1 v + f * filterState0 v;
          high = input - low - q * filterState0 v;
          band = f * high + filterState0 v
      in (low, v\<lparr>filterState0 := band, filterState1 := low\<rparr>))"

subsection \<open>Core functions\<close>

text \<open>
  \<^verbatim>\<open>init(float sr, int bs)\<close>. The loop assigns the same fields of every voice
  (\<^verbatim>\<open>envTarget\<close> is not among them).
\<close>

definition init_voice :: "voice \<Rightarrow> voice" where
  "init_voice v =
     v\<lparr>active := 0, voice_note := 0, velocity := Fin 0, phase := Fin 0,
       phaseIncrement := Fin 0, envelope := Fin 0, envStage := 0,
       filterState0 := Fin 0, filterState1 := Fin 0, lfoPhase := Fin 0\<rparr>"

definition init_instrument :: "instrument_state \<Rightarrow> float \<Rightarrow> int \<Rightarrow> instrument_state" where
  "init_instrument s sr bs =
     (let s = s\<lparr>sampleRate := sr, bufferSize := bs\<rparr>
      in fold (\<lambda>i s. s\<lparr>voices := (voices s)(i := init_voice (voices s i))\<rparr>)
           [0..<MAX_VOICES] s)"

text \<open>
  The body of the voice loop of \<^verbatim>\<open>process\<close> for voice \<open>v\<close>: the state and the running
  \<^verbatim>\<open>sample\<close> go in and come out. An inactive voice is skipped (\<^verbatim>\<open>continue\<close>).
\<close>

definition process_voice ::
  "int \<Rightarrow> float \<Rightarrow> nat \<Rightarrow> instrument_state \<times> float \<Rightarrow> instrument_state \<times> float" where
  "process_voice waveform detune v = (\<lambda>(s, sample).
     if active (voices s v) = 0 then (s, sample)
     else
       (let freq = noteToFrequency (voice_note (voices s v));
            bendSemitones = pitchBendValue s * Fin 2;
            totalDetune = bendSemitones + detune;
            freq = freq * powf_two (totalDetune / Fin 12);
            vo = (voices s v)\<lparr>phaseIncrement := frequencyToPhaseIncrement s freq\<rparr>;
            (osc, vo, ns) = generateOscillator vo waveform (noiseState s);
            (filtered, vo) = processFilter s vo osc;
            voiced = filtered * envelope vo * velocity vo;
            vo = updateEnvelope s vo
        in (s\<lparr>voices := (voices s)(v := vo), noiseState := ns\<rparr>, sample + voiced)))"

text \<open>The body of the sample loop of \<^verbatim>\<open>process\<close> for sample \<open>i\<close>.\<close>

definition process_sample ::
  "int \<Rightarrow> float \<Rightarrow> nat \<Rightarrow> instrument_state \<times> (nat \<Rightarrow> float)
     \<Rightarrow> instrument_state \<times> (nat \<Rightarrow> float)" where
  "process_sample waveform detune i = (\<lambda>(s, output).
     (let (s, sample) = fold (process_voice waveform detune) [0..<MAX_VOICES] (s, Fin 0);
          sample = sample * masterVolume s;
          sample = tanhf sample
      in (s, output(i * NUM_CHANNELS := sample, i * NUM_CHANNELS + 1 := sample))))"

text \<open>
  \<^verbatim>\<open>process(float* input, float* output, int numSamples)\<close>, for a sample count that is not
  negative. The output buffer is a function of the index; \<^verbatim>\<open>input\<close> is never read.
  Returns the state and the output buffer.
\<close>

definition process_instrument ::
  "instrument_state \<Rightarrow> (nat \<Rightarrow> float) \<Rightarrow> (nat \<Rightarrow> float) \<Rightarrow> nat
     \<Rightarrow> instrument_state \<times> (nat \<Rightarrow> float)" where
  "process_instrument s input output numSamples =
     (let waveform = int_of_float (params s 0);
          detune = params s 7;
          output = (\<lambda>k. if k < numSamples * NUM_CHANNELS then Fin 0 else output k)
      in fold (process_sample waveform detune) [0..<numSamples] (s, output))"

definition reset_voice :: "voice \<Rightarrow> voice" where
  "reset_voice v =
     v\<lparr>active := 0, envelope := Fin 0, envStage := 0,
       filterState0 := Fin 0, filterState1 := Fin 0\<rparr>"

definition reset_instrument :: "instrument_state \<Rightarrow> instrument_state" where
  "reset_instrument s =
     (let s = fold (\<lambda>i s. s\<lparr>voices := (voices s)(i := reset_voice (voices s i))\<rparr>)
                [0..<MAX_VOICES] s
      in s\<lparr>pitchBendValue := Fin 0, modWheel := Fin 0\<rparr>)"

subsection \<open>MIDI functions\<close>

text \<open>\<^verbatim>\<open>noteOff(int note, int channel)\<close>.\<close>

definition noteOff :: "instrument_state \<Rightarrow> int \<Rightarrow> int \<Rightarrow> instrument_state" where
  "noteOff s n channel =
     fold (\<lambda>i s.
             if active (voices s i) \<noteq> 0 \<and> voice_note (voices s i) = n \<and> envStage (voices s i) \<noteq> 4
             then s\<lparr>voices := (voices s)(i := (voices s i)\<lparr>envStage := 4\<rparr>)\<rparr>
             else s)
       [0..<MAX_VOICES] s"

text \<open>
  The scan of \<^verbatim>\<open>noteOn\<close> from index \<open>i\<close> on, with the current \<^verbatim>\<open>oldestTime\<close> and
  \<^verbatim>\<open>oldestIndex\<close>; returns \<^verbatim>\<open>voiceIndex\<close> (\<open>-1\<close> when the loop ends without a
  \<^verbatim>\<open>break\<close>) and \<^verbatim>\<open>oldestIndex\<close>.
\<close>

function find_voice :: "(nat \<Rightarrow> voice) \<Rightarrow> nat \<Rightarrow> float \<Rightarrow> int \<Rightarrow> int \<times> int" where
  "find_voice vs i oldestTime oldestIndex =
     (if i < MAX_VOICES then
        (if active (vs i) = 0 then (int i, oldestIndex)
         else if envelope (vs i) < oldestTime \<or> i = 0
           then find_voice vs (i + 1) (envelope (vs i)) (int i)
           else find_voice vs (i + 1) oldestTime oldestIndex)
      else (- 1, oldestIndex))"
  by pat_completeness auto
termination
  by (relation "measure (\<lambda>(vs, i, t, k). MAX_VOICES - i)") auto

text \<open>The index \<^verbatim>\<open>noteOn\<close> initialises: a free voice, or else the one it steals.\<close>

definition choose_voice :: "(nat \<Rightarrow> voice) \<Rightarrow> int" where
  "choose_voice vs =
     (let (voiceIndex, oldestIndex) = find_voice vs 0 (Fin 0) 0
      in if voiceIndex = - 1 then oldestIndex else voiceIndex)"

text \<open>\<^verbatim>\<open>noteOn(int note, int velocity, int channel)\<close>.\<close>

definition noteOn :: "instrument_state \<Rightarrow> int \<Rightarrow> int \<Rightarrow> int \<Rightarrow> instrument_state" where
  "noteOn s n vel channel =
     (if vel = 0 then noteOff s n channel
      else
        (let voiceIndex = nat (choose_voice (voices s));
             v = voices s voiceIndex;
             v = v\<lparr>active := 1,
                   voice_note := n,
                   velocity := float_of_int vel / Fin 127,
                   phase := Fin 0,
                   phaseIncrement := frequencyToPhaseIncrement s (noteToFrequency n),
                   envelope := Fin 0,
                   envStage := 1,
                   filterState0 := Fin 0,
                   filterState1 := Fin 0\<rparr>
         in s\<lparr>voices := (voices s)(voiceIndex := v)\<rparr>))"

text \<open>\<^verbatim>\<open>controlChange(int cc, int value, int channel)\<close>.\<close>

definition controlChange :: "instrument_state \<Rightarrow> int \<Rightarrow> int \<Rightarrow> int \<Rightarrow> instrument_state" where
  "controlChange s cc val channel =
     (let normalizedValue = float_of_int val / Fin 127
      in if cc = 1 then s\<lparr>modWheel := normalizedValue\<rparr>
         else if cc = 7 then s\<lparr>masterVolume := normalizedValue\<rparr>
         else if cc = 74 then s\<lparr>params := (params s)(5 := Fin 20 + normalizedValue * Fin 19980)\<rparr>
         else if cc = 71 then s\<lparr>params := (params s)(6 := normalizedValue)\<rparr>
         else if cc = 123 then reset_instrument s
         else s)"

text \<open>\<^verbatim>\<open>pitchBend(int value, int channel)\<close>.\<close>

definition pitchBend :: "instrument_state \<Rightarrow> int \<Rightarrow> int \<Rightarrow> instrument_state" where
  "pitchBend s val channel = s\<lparr>pitchBendValue := float_of_int (val - 8192) / Fin 8192\<rparr>"

section \<open>Vocabulary of the properties\<close>

text \<open>What \<^verbatim>\<open>noteOff\<close> does to one voice.\<close>

definition release_matching :: "int \<Rightarrow> voice \<Rightarrow> voice" where
  "release_matching n v =
     (if active v \<noteq> 0 \<and> voice_note v = n \<and> envStage v \<noteq> 4 then v\<lparr>envStage := 4\<rparr> else v)"

text \<open>
  The invariant of the voice structure: a voice is inactive exactly when its envelope
  stage is 0 (idle). The pool satisfies it when each of its 16 voices does.
\<close>

definition voice_ok :: "voice \<Rightarrow> bool" where
  "voice_ok v = ((active v = 0) = (envStage v = 0))"

definition pool_invariant :: "instrument_state \<Rightarrow> bool" where
  "pool_invariant s = (\<forall>i<MAX_VOICES. voice_ok (voices s i))"

text \<open>The number of active voices of the pool.\<close>

definition active_count :: "instrument_state \<Rightarrow> nat" where
  "active_count s = length (filter (\<lambda>i. active (voices s i) \<noteq> 0) [0..<MAX_VOICES])"

text \<open>
  The candidate \<open>k\<close> held after the voices below \<open>i\<close>: its level is \<open>t\<close>, no voice below
  \<open>i\<close> has a lower level, and no voice before \<open>k\<close> has a level as low.
\<close>

definition oldest_so_far :: "(nat \<Rightarrow> voice) \<Rightarrow> nat \<Rightarrow> float \<Rightarrow> int \<Rightarrow> bool" where
  "oldest_so_far vs i t k =
     (0 \<le> k \<and> nat k < i \<and> t = envelope (vs (nat k)) \<and>
      (\<forall>j<i. \<not> envelope (vs j) < envelope (vs (nat k))) \<and>
      (\<forall>j<nat k. \<not> envelope (vs j) \<le> envelope (vs (nat k))))"

text \<open>A run of \<^verbatim>\<open>noteOn\<close> calls, each given as (note, velocity, channel).\<close>

fun noteOn_all :: "instrument_state \<Rightarrow> (int \<times> int \<times> int) list \<Rightarrow> instrument_state" where
  "noteOn_all s [] = s"
| "noteOn_all s ((n, vel, channel) # evs) = noteOn_all (noteOn s n vel channel) evs"

text \<open>The active voices of the pool are exactly those below index \<open>m\<close>.\<close>

definition active_below :: "nat \<Rightarrow> instrument_state \<Rightarrow> bool" where
  "active_below m s = (\<forall>i<MAX_VOICES. (active (voices s i) \<noteq> 0) = (i < m))"

text \<open>
  Two concrete pools. In \<open>full_pool\<close> every voice is active, at level 0.5 but for
  voices 5 and 9 at level 0.1. In \<open>layered\<close> voices 0, 1 and 3 sound note 60 (voice 3
  already in release) and voice 2 sounds note 62; the other voices are idle.
\<close>

definition full_pool :: "nat \<Rightarrow> voice" where
  "full_pool = (\<lambda>i. zero_voice\<lparr>active := 1, envStage := 3,
      envelope := (if i = 5 \<or> i = 9 then Fin 0.1 else Fin 0.5)\<rparr>)"

definition layered :: instrument_state where
  "layered = initial_instrument\<lparr>voices := (\<lambda>_. zero_voice)
      (0 := zero_voice\<lparr>active := 1, voice_note := 60, envStage := 3\<rparr>,
       1 := zero_voice\<lparr>active := 1, voice_note := 60, envStage := 1\<rparr>,
       2 := zero_voice\<lparr>active := 1, voice_note := 62, envStage := 3\<rparr>,
       3 := zero_voice\<lparr>active := 1, voice_note := 60, envStage := 4, envelope := Fin 0.25\<rparr>)\<rparr>"

text \<open>
  What a processing loop of the effect leaves alone between \<open>a\<close> and \<open>b\<close>: the output
  cells from \<open>B\<close> on, the filter cells from 2 on, the parameters and the sample rate.
\<close>

definition untouched :: "nat \<Rightarrow> effect_state \<times> (nat \<Rightarrow> float) \<Rightarrow> effect_state \<times> (nat \<Rightarrow> float) \<Rightarrow> bool" where
  "untouched B a b =
     ((\<forall>k\<ge>B. snd b k = snd a k) \<and>
      (\<forall>c\<ge>NUM_CHANNELS. filterState_effect (fst b) c = filterState_effect (fst a) c) \<and>
      params_effect (fst b) = params_effect (fst a) \<and>
      sampleRate_effect (fst b) = sampleRate_effect (fst a) \<and>
      bufferSize_effect (fst b) = bufferSize_effect (fst a))"

text \<open>
  The state of the lowpass of channel \<open>ch\<close> after \<open>i\<close> samples of an interleaved buffer,
  starting from the state the previous call left in \<^verbatim>\<open>filterState[ch]\<close>.
\<close>

primrec lowpass_run :: "effect_state \<Rightarrow> (nat \<Rightarrow> float) \<Rightarrow> nat \<Rightarrow> nat \<Rightarrow> float" where
  "lowpass_run s inp ch 0 = filterState_effect s ch"
| "lowpass_run s inp ch (Suc i) =
     lowpass s (inp (i * NUM_CHANNELS + ch)) (lowpass_run s inp ch i) (params_effect s 2)"

text \<open>
  The coefficient \<open>alpha\<close> of the lowpass for a sample rate \<open>r\<close> and a cutoff \<open>c\<close>, as a
  number.
\<close>

definition filter_alpha :: "real \<Rightarrow> real \<Rightarrow> real" where
  "filter_alpha r c = (1 / r) / (1 / (2 * 3.14159265 * c) + 1 / r)"

text \<open>
  The conditions under which no step of the lowpass leaves the finite numbers, in single
  precision as well: a value is \<open>bounded\<close> when it is a number of magnitude at most
  \<open>2^64\<close>; the filter is in range when the sample rate is a finite number of at least 1,
  the cutoff lies in its declared range 20..20000 and the two filter states are bounded.
\<close>

definition bounded :: "float \<Rightarrow> bool" where
  "bounded a = (case a of Fin x \<Rightarrow> \<bar>x\<bar> \<le> 2 ^ 64 | _ \<Rightarrow> False)"

definition filter_in_range :: "effect_state \<Rightarrow> bool" where
  "filter_in_range s =
     (is_finite (sampleRate_effect s) \<and> Fin 1 \<le> sampleRate_effect s \<and>
      Fin 20 \<le> params_effect s 2 \<and> params_effect s 2 \<le> Fin 20000 \<and>
      bounded (filterState_effect s 0) \<and> bounded (filterState_effect s 1))"

text \<open>
  One sample of \<^verbatim>\<open>process\<close>, voice by voice, from the state \<open>s\<close> in which the sample
  starts. \<open>voice_prepared\<close> is voice \<open>v\<close> with the phase increment the loop body gives it.
  \<open>noise_before\<close> is the state of the noise generator when the loop reaches voice \<open>v\<close>:
  with the noise waveform every active voice before \<open>v\<close> has stepped it once.
  \<open>filteredOutput\<close> is the value \<^verbatim>\<open>processFilter\<close> returns for voice \<open>v\<close>, and
  \<open>voice_after\<close> is the voice the loop body stores back.
\<close>

definition voice_prepared :: "float \<Rightarrow> instrument_state \<Rightarrow> nat \<Rightarrow> voice" where
  "voice_prepared detune s v =
     (voices s v)\<lparr>phaseIncrement := frequencyToPhaseIncrement s
        (noteToFrequency (voice_note (voices s v))
           * powf_two ((pitchBendValue s * Fin 2 + detune) / Fin 12))\<rparr>"

definition noise_before :: "int \<Rightarrow> instrument_state \<Rightarrow> nat \<Rightarrow> 32 word" where
  "noise_before waveform s v =
     (if waveform = WAVE_NOISE
      then ((\<lambda>ns. snd (noise ns)) ^^ length (filter (\<lambda>u. active (voices s u) \<noteq> 0) [0..<v]))
             (noiseState s)
      else noiseState s)"

definition filteredOutput :: "int \<Rightarrow> float \<Rightarrow> instrument_state \<Rightarrow> nat \<Rightarrow> float" where
  "filteredOutput waveform detune s v =
     (let (osc, vo, ns) = generateOscillator (voice_prepared detune s v) waveform
                            (noise_before waveform s v)
      in fst (processFilter s vo osc))"

definition voice_after :: "int \<Rightarrow> float \<Rightarrow> instrument_state \<Rightarrow> nat \<Rightarrow> voice" where
  "voice_after waveform detune s v =
     (let (osc, vo, ns) = generateOscillator (voice_prepared detune s v) waveform
                            (noise_before waveform s v)
      in updateEnvelope s (snd (processFilter s vo osc)))"

text \<open>
  The sum \<^verbatim>\<open>sample\<close> of the voice loop after the voices below \<open>n\<close>, and after all 16:
  over the voices active in \<open>s\<close>, in index order, of filtered output times envelope
  level times velocity.
\<close>

definition mix_upto :: "int \<Rightarrow> float \<Rightarrow> instrument_state \<Rightarrow> nat \<Rightarrow> float" where
  "mix_upto waveform detune s n =
     foldl (\<lambda>acc v. acc + filteredOutput waveform detune s v * envelope (voices s v)
                              * velocity (voices s v))
       (Fin 0) (filter (\<lambda>v. active (voices s v) \<noteq> 0) [0..<n])"

definition voice_mix :: "int \<Rightarrow> float \<Rightarrow> instrument_state \<Rightarrow> float" where
  "voice_mix waveform detune s = mix_upto waveform detune s MAX_VOICES"

text \<open>The state after the voices below \<open>n\<close> of one sample, and after the whole sample.\<close>

definition voices_upto :: "int \<Rightarrow> float \<Rightarrow> instrument_state \<Rightarrow> nat \<Rightarrow> instrument_state" where
  "voices_upto waveform detune s n =
     s\<lparr>voices := (\<lambda>u. if u < n \<and> active (voices s u) \<noteq> 0
                       then voice_after waveform detune s u else voices s u),
       noiseState := noise_before waveform s n\<rparr>"

definition sample_step :: "int \<Rightarrow> float \<Rightarrow> instrument_state \<Rightarrow> instrument_state" where
  "sample_step waveform detune s = voices_upto waveform detune s MAX_VOICES"

text \<open>A pool whose voice 0 has just been started on note 69 at full velocity.\<close>

definition one_voice :: instrument_state where
  "one_voice = initial_instrument\<lparr>voices := (\<lambda>_. zero_voice)
      (0 := zero_voice\<lparr>active := 1, voice_note := 69, velocity := Fin 1, envStage := 1\<rparr>)\<rparr>"

section \<open>Facts about single-precision values\<close>

lemma Fin_less [simp]: "(Fin x < Fin y) = (x < y)"
  by (simp add: less_float_def)

lemma Fin_less_eq [simp]: "(Fin x \<le> Fin y) = (x \<le> y)"
  by (simp add: less_eq_float_def)

lemma NaN_less [simp]: "\<not> NaN < a" "\<not> a < NaN"
  by (cases a; simp add: less_float_def)+

lemma NaN_less_eq [simp]: "\<not> NaN \<le> a" "\<not> a \<le> NaN"
  by (cases a; simp add: less_eq_float_def)+

lemma float_less_irrefl: "\<not> (a::float) < a"
  by (cases a; simp add: less_float_def)

lemma float_less_trans: "(a::float) < b \<Longrightarrow> b < c \<Longrightarrow> a < c"
  by (cases a; cases b; cases c; simp add: less_float_def)

lemma float_le_less_trans: "(a::float) \<le> b \<Longrightarrow> b < c \<Longrightarrow> a < c"
  by (cases a; cases b; cases c; simp add: less_float_def less_eq_float_def)

lemma Fin_arith [simp]:
  "Fin x + Fin y = Fin (x + y)"
  "Fin x - Fin y = Fin (x - y)"
  "Fin x * Fin y = Fin (x * y)"
  "- Fin x = Fin (- x)"
  by (simp_all add: plus_float_def minus_float_def times_float_def uminus_float_def)

lemma Fin_divide [simp]: "y \<noteq> 0 \<Longrightarrow> Fin x / Fin y = Fin (x / y)"
  by (simp add: divide_float_def)

lemma float_mul_commute: "(a::float) * b = b * a"
  by (cases a; cases b; simp add: times_float_def mult.commute)

lemmas float_ops = plus_float_def minus_float_def times_float_def divide_float_def signed_inf_def

lemma is_finite_iff: "is_finite a = (\<exists>x. a = Fin x)"
  by (cases a) (simp_all add: is_finite_def)

lemma clamp_NaN [simp]: "clamp NaN mn mx = NaN"
  by (simp add: clamp_def)

lemma clamp_in_range:
  assumes "\<not> is_nan v" "\<not> is_nan mn" "\<not> is_nan mx" "mn \<le> mx"
  shows "mn \<le> clamp v mn mx \<and> clamp v mn mx \<le> mx"
  using assms
  by (cases v; cases mn; cases mx;
      simp add: clamp_def is_nan_def less_float_def less_eq_float_def)

lemma clamp_id:
  assumes "mn \<le> v" "v \<le> mx"
  shows "clamp v mn mx = v"
  using assms
  by (cases v; cases mn; cases mx;
      simp add: clamp_def is_nan_def less_float_def less_eq_float_def)

section \<open>The parameter store\<close>

text \<open>
  Set then get on values that are not NaN. For every parameter index in range (0..3 for the effect, 0..7
  for the instrument) and every value that is not NaN, \<^verbatim>\<open>setParameter(index, value)\<close>
  followed by \<^verbatim>\<open>getParameter(index)\<close> returns \<open>value\<close> clamped into the declared range
  of that parameter: the result lies in the range, and it is \<open>value\<close> itself when
  \<open>value\<close> already lies in the range.
\<close>

theorem setParameter_getParameter_clamped:
  assumes "\<not> is_nan v"
  shows "(0 \<le> i \<and> i < NUM_PARAMETERS_effect \<longrightarrow>
           (let r = getParameter_effect (setParameter_effect s i v) i;
                lo = fst (range_effect i); hi = snd (range_effect i)
            in r = clamp v lo hi \<and> lo \<le> r \<and> r \<le> hi \<and> (lo \<le> v \<and> v \<le> hi \<longrightarrow> r = v))) \<and>
         (0 \<le> j \<and> j < NUM_PARAMETERS_instrument \<longrightarrow>
           (let r = getParameter_instrument (setParameter_instrument t j v) j;
                lo = fst (range_instrument j); hi = snd (range_instrument j)
            in r = clamp v lo hi \<and> lo \<le> r \<and> r \<le> hi \<and> (lo \<le> v \<and> v \<le> hi \<longrightarrow> r = v)))"
proof -
  have E: "getParameter_effect (setParameter_effect s i v) i
             = clamp v (fst (range_effect i)) (snd (range_effect i))"
    if "0 \<le> i" "i < 4"
  proof -
    from that have "i = 0 \<or> i = 1 \<or> i = 2 \<or> i = 3" by arith
    then show ?thesis
      by (auto simp: getParameter_effect_def setParameter_effect_def range_effect_def)
  qed
  have I: "getParameter_instrument (setParameter_instrument t j v) j
             = clamp v (fst (range_instrument j)) (snd (range_instrument j))"
    if "0 \<le> j" "j < 8"
  proof -
    from that have "j = 0 \<or> j = 1 \<or> j = 2 \<or> j = 3 \<or> j = 4 \<or> j = 5 \<or> j = 6 \<or> j = 7"
      by arith
    then show ?thesis
      by (auto simp: getParameter_instrument_def setParameter_instrument_def
            range_instrument_def)
  qed
  have RE: "\<not> is_nan (fst (range_effect i)) \<and> \<not> is_nan (snd (range_effect i)) \<and>
            fst (range_effect i) \<le> snd (range_effect i)"
    by (simp add: range_effect_def is_nan_def)
  have RI: "\<not> is_nan (fst (range_instrument j)) \<and> \<not> is_nan (snd (range_instrument j)) \<and>
            fst (range_instrument j) \<le> snd (range_instrument j)"
    by (simp add: range_instrument_def is_nan_def)
  show ?thesis
    using E I RE RI clamp_in_range[OF assms] clamp_id by (simp add: Let_def)
qed

text \<open>
  The theorem at concrete inputs: gain 3 is stored as 2 and mix 0.25 is stored as it is
  in the effect; detune -5 is stored as -1 in the instrument.
\<close>

theorem setParameter_getParameter_clamped_witness:
  "\<not> is_nan (Fin 3) \<and>
   getParameter_effect (setParameter_effect initial_effect 0 (Fin 3)) 0 = Fin 2 \<and>
   getParameter_effect (setParameter_effect initial_effect 1 (Fin 0.25)) 1 = Fin 0.25 \<and>
   getParameter_instrument (setParameter_instrument initial_instrument 7 (Fin (- 5))) 7
     = Fin (- 1)"
  using setParameter_getParameter_clamped [where v = "Fin 3" and i = 0 and s = initial_effect]
    setParameter_getParameter_clamped [where v = "Fin 0.25" and i = 1 and s = initial_effect]
    setParameter_getParameter_clamped [where v = "Fin (- 5)" and j = 7
      and t = initial_instrument]
  by (simp add: is_nan_def range_effect_def range_instrument_def clamp_def Let_def)

text \<open>
  C1. After \<^verbatim>\<open>setParameter(index, value)\<close> the stored value is to lie in the declared
  range of the parameter, for every value. The code misses the value NaN: \<^verbatim>\<open>clamp\<close>
  compares with \<^verbatim>\<open><\<close> and \<^verbatim>\<open>>\<close> only, both comparisons are false for NaN, and the value is
  returned as it came. So \<^verbatim>\<open>setParameter(0, NaN)\<close> stores NaN as the effect's gain and
  \<^verbatim>\<open>getParameter(0)\<close> returns it, which is not within the declared 0..2.
\<close>

theorem setParameter_NaN_not_clamped:
  "getParameter_effect (setParameter_effect initial_effect 0 NaN) 0 = NaN \<and>
   \<not> (fst (range_effect 0) \<le> getParameter_effect (setParameter_effect initial_effect 0 NaN) 0 \<and>
      getParameter_effect (setParameter_effect initial_effect 0 NaN) 0 \<le> snd (range_effect 0))"
  by (simp add: getParameter_effect_def setParameter_effect_def)

text \<open>
  C6. For an index out of range (negative, or at least the parameter count),
  \<^verbatim>\<open>getParameter\<close> returns 0 and \<^verbatim>\<open>setParameter\<close> leaves the whole state as it was, so
  every later \<^verbatim>\<open>getParameter\<close> returns what it returned before; in both templates.
\<close>

theorem parameter_index_out_of_range:
  "(i < 0 \<or> i \<ge> NUM_PARAMETERS_effect \<longrightarrow>
      getParameter_effect s i = Fin 0 \<and>
      setParameter_effect s i v = s \<and>
      getParameter_effect (setParameter_effect s i v) k = getParameter_effect s k) \<and>
   (j < 0 \<or> j \<ge> NUM_PARAMETERS_instrument \<longrightarrow>
      getParameter_instrument t j = Fin 0 \<and>
      setParameter_instrument t j v = t \<and>
      getParameter_instrument (setParameter_instrument t j v) k = getParameter_instrument t k)"
  by (simp add: getParameter_effect_def setParameter_effect_def
        getParameter_instrument_def setParameter_instrument_def)

theorem parameter_index_out_of_range_witness:
  "getParameter_effect initial_effect 4 = Fin 0 \<and>
   setParameter_effect initial_effect 4 (Fin 1.5) = initial_effect \<and>
   getParameter_instrument initial_instrument (- 1) = Fin 0 \<and>
   setParameter_instrument initial_instrument (- 1) (Fin 1.5) = initial_instrument \<and>
   getParameter_instrument (setParameter_instrument initial_instrument (- 1) (Fin 1.5)) 5
     = getParameter_instrument initial_instrument 5"
  using parameter_index_out_of_range [where i = 4 and s = initial_effect and v = "Fin 1.5"
      and j = "- 1" and t = initial_instrument and k = 5]
  by simp

section \<open>Folds over the voice pool\<close>

declare find_voice.simps [simp del]

lemma fold_invariant:
  assumes "\<And>x a. P a \<Longrightarrow> P (f x a)" and "P a"
  shows "P (fold f xs a)"
  using assms(2) by (induction xs arbitrary: a) (simp_all add: assms(1))

lemma fold_invariant_set:
  assumes "\<And>x a. x \<in> set xs \<Longrightarrow> P a \<Longrightarrow> P (f x a)" and "P a"
  shows "P (fold f xs a)"
  using assms by (induction xs arbitrary: a) simp_all

lemma fold_voices_pointwise:
  "fold (\<lambda>i s. s\<lparr>voices := (voices s)(i := f (voices s i))\<rparr>) [0..<n] s
     = s\<lparr>voices := (\<lambda>i. if i < n then f (voices s i) else voices s i)\<rparr>"
proof (induction n)
  case 0
  show ?case by simp
next
  case (Suc n)
  let ?step = "\<lambda>i s. s\<lparr>voices := (voices s)(i := f (voices s i))\<rparr>"
  let ?s' = "s\<lparr>voices := (\<lambda>i. if i < n then f (voices s i) else voices s i)\<rparr>"
  have "fold ?step [0..<Suc n] s = ?step n (fold ?step [0..<n] s)"
    by simp
  also have "\<dots> = ?step n ?s'"
    by (simp only: Suc.IH)
  also have "\<dots> = s\<lparr>voices := (\<lambda>i. if i < Suc n then f (voices s i) else voices s i)\<rparr>"
    by (auto simp: fun_eq_iff)
  finally show ?case .
qed

lemma init_instrument_voices:
  "voices (init_instrument s sr bs) = (\<lambda>i. if i < MAX_VOICES then init_voice (voices s i) else voices s i)"
  by (simp add: init_instrument_def Let_def fold_voices_pointwise fun_eq_iff)

lemma reset_instrument_eq:
  "reset_instrument s =
     s\<lparr>voices := (\<lambda>i. if i < MAX_VOICES then reset_voice (voices s i) else voices s i),
       pitchBendValue := Fin 0, modWheel := Fin 0\<rparr>"
  by (simp add: reset_instrument_def Let_def fold_voices_pointwise)

section \<open>Note off\<close>

lemma noteOff_pointwise:
  "noteOff s n channel
     = s\<lparr>voices := (\<lambda>i. if i < MAX_VOICES then release_matching n (voices s i) else voices s i)\<rparr>"
proof -
  have eq: "(\<lambda>i s. if active (voices s i) \<noteq> 0 \<and> voice_note (voices s i) = n \<and> envStage (voices s i) \<noteq> 4
             then s\<lparr>voices := (voices s)(i := (voices s i)\<lparr>envStage := 4\<rparr>)\<rparr> else s)
        = (\<lambda>i s. s\<lparr>voices := (voices s)(i := release_matching n (voices s i))\<rparr>)"
    by (auto simp: fun_eq_iff release_matching_def)
  show ?thesis
    unfolding noteOff_def by (simp only: eq fold_voices_pointwise)
qed

text \<open>
  C7. \<^verbatim>\<open>noteOn\<close> with velocity 0 is \<^verbatim>\<open>noteOff(note, channel)\<close>: the resulting states are
  equal, so no voice is allocated or stolen. \<^verbatim>\<open>noteOff(note, channel)\<close> gives the stage 4
  (release) to every voice of the pool that is active, holds the note and is not in
  release, and changes nothing else: every other voice, every other field of the released
  voices and the rest of the state stay as they were.
\<close>

theorem noteOff_releases_matching:
  "noteOn s n 0 channel = noteOff s n channel \<and>
   noteOff s n channel =
     s\<lparr>voices := (\<lambda>i. if i < MAX_VOICES \<and> active (voices s i) \<noteq> 0 \<and> voice_note (voices s i) = n
                            \<and> envStage (voices s i) \<noteq> 4
                         then (voices s i)\<lparr>envStage := 4\<rparr> else voices s i)\<rparr>"
proof -
  have "(\<lambda>i. if i < MAX_VOICES then release_matching n (voices s i) else voices s i)
      = (\<lambda>i. if i < MAX_VOICES \<and> active (voices s i) \<noteq> 0 \<and> voice_note (voices s i) = n
                            \<and> envStage (voices s i) \<noteq> 4
                         then (voices s i)\<lparr>envStage := 4\<rparr> else voices s i)"
    by (auto simp: fun_eq_iff release_matching_def)
  then show ?thesis
    by (simp add: noteOn_def noteOff_pointwise)
qed

theorem noteOff_releases_matching_witness:
  "noteOn layered 60 0 0 = noteOff layered 60 0 \<and>
   envStage (voices (noteOff layered 60 0) 0) = 4 \<and>
   envStage (voices (noteOff layered 60 0) 1) = 4 \<and>
   voices (noteOff layered 60 0) 2 = voices layered 2 \<and>
   voices (noteOff layered 60 0) 3 = voices layered 3 \<and>
   voices (noteOff layered 60 0) 4 = voices layered 4"
  using noteOff_releases_matching [of layered 60 0]
  by (simp add: layered_def zero_voice_def)

section \<open>The envelope\<close>

lemma updateEnvelope_edges:
  "(envStage (updateEnvelope s v) \<noteq> envStage v \<longrightarrow>
      (envStage v = 1 \<and> envStage (updateEnvelope s v) = 2) \<or>
      (envStage v = 2 \<and> envStage (updateEnvelope s v) = 3) \<or>
      (envStage v = 4 \<and> envStage (updateEnvelope s v) = 0)) \<and>
   (active (updateEnvelope s v) \<noteq> active v \<longrightarrow>
      envStage v = 4 \<and> envStage (updateEnvelope s v) = 0 \<and> active (updateEnvelope s v) = 0)"
proof -
  consider "envStage v = 1" | "envStage v = 2" | "envStage v = 3" | "envStage v = 4"
    | "envStage v \<noteq> 1 \<and> envStage v \<noteq> 2 \<and> envStage v \<noteq> 3 \<and> envStage v \<noteq> 4"
    by blast
  then show ?thesis
  proof cases
    case 1
    then show ?thesis by (simp add: updateEnvelope_def Let_def)
  next
    case 2
    then show ?thesis by (simp add: updateEnvelope_def Let_def)
  next
    case 3
    then show ?thesis by (simp add: updateEnvelope_def Let_def)
  next
    case 4
    then show ?thesis by (simp add: updateEnvelope_def Let_def)
  next
    case 5
    then show ?thesis by (simp add: updateEnvelope_def Let_def)
  qed
qed

text \<open>
  C2. One call of \<^verbatim>\<open>updateEnvelope\<close>, stage by stage (0 idle, 1 attack, 2 decay,
  3 sustain, 4 release). In attack the level grows by \<open>1 / (attack * sampleRate)\<close>; once
  it is at least 1 it is set to 1 and the stage to decay. In decay the level falls by
  \<open>(1 - sustain) / (decay * sampleRate)\<close>; once it is at most \<open>sustain\<close> it is set to
  \<open>sustain\<close> and the stage to sustain. In sustain nothing changes. In release the level
  falls by \<open>level / (release * sampleRate)\<close>; once it is at most 0.001 the level is set
  to 0, the stage to idle and the voice is deactivated. An idle voice is left as it is.
  So the only stage changes of the update are attack to decay, decay to sustain and
  release to idle, and the only change of \<^verbatim>\<open>active\<close> is the deactivation at the end of
  the release. The times are \<^verbatim>\<open>params[1]\<close>, \<^verbatim>\<open>params[2]\<close>, \<^verbatim>\<open>params[4]\<close> and \<open>sustain\<close> is
  \<^verbatim>\<open>params[3]\<close>.
\<close>

theorem updateEnvelope_state_machine:
  "(envStage v = 0 \<longrightarrow> updateEnvelope s v = v) \<and>
   (envStage v = 1 \<longrightarrow>
      (let level = envelope v + Fin 1 / (params s 1 * sampleRate s)
       in updateEnvelope s v =
            (if level \<ge> Fin 1 then v\<lparr>envelope := Fin 1, envStage := 2\<rparr>
             else v\<lparr>envelope := level\<rparr>))) \<and>
   (envStage v = 2 \<longrightarrow>
      (let level = envelope v - (Fin 1 - params s 3) / (params s 2 * sampleRate s)
       in updateEnvelope s v =
            (if level \<le> params s 3 then v\<lparr>envelope := params s 3, envStage := 3\<rparr>
             else v\<lparr>envelope := level\<rparr>))) \<and>
   (envStage v = 3 \<longrightarrow> updateEnvelope s v = v) \<and>
   (envStage v = 4 \<longrightarrow>
      (let level = envelope v - envelope v / (params s 4 * sampleRate s)
       in updateEnvelope s v =
            (if level \<le> Fin 0.001 then v\<lparr>envelope := Fin 0, envStage := 0, active := 0\<rparr>
             else v\<lparr>envelope := level\<rparr>))) \<and>
   (envStage (updateEnvelope s v) \<noteq> envStage v \<longrightarrow>
      (envStage v = 1 \<and> envStage (updateEnvelope s v) = 2) \<or>
      (envStage v = 2 \<and> envStage (updateEnvelope s v) = 3) \<or>
      (envStage v = 4 \<and> envStage (updateEnvelope s v) = 0)) \<and>
   (active (updateEnvelope s v) \<noteq> active v \<longrightarrow>
      envStage v = 4 \<and> envStage (updateEnvelope s v) = 0 \<and> active (updateEnvelope s v) = 0)"
proof (intro conjI)
  show "envStage v = 0 \<longrightarrow> updateEnvelope s v = v"
    by (simp add: updateEnvelope_def Let_def)
  show "envStage v = 1 \<longrightarrow>
      (let level = envelope v + Fin 1 / (params s 1 * sampleRate s)
       in updateEnvelope s v =
            (if level \<ge> Fin 1 then v\<lparr>envelope := Fin 1, envStage := 2\<rparr>
             else v\<lparr>envelope := level\<rparr>))"
    by (simp add: updateEnvelope_def Let_def)
  show "envStage v = 2 \<longrightarrow>
      (let level = envelope v - (Fin 1 - params s 3) / (params s 2 * sampleRate s)
       in updateEnvelope s v =
            (if level \<le> params s 3 then v\<lparr>envelope := params s 3, envStage := 3\<rparr>
             else v\<lparr>envelope := level\<rparr>))"
    by (simp add: updateEnvelope_def Let_def)
  show "envStage v = 3 \<longrightarrow> updateEnvelope s v = v"
    by (simp add: updateEnvelope_def Let_def)
  show "envStage v = 4 \<longrightarrow>
      (let level = envelope v - envelope v / (params s 4 * sampleRate s)
       in updateEnvelope s v =
            (if level \<le> Fin 0.001 then v\<lparr>envelope := Fin 0, envStage := 0, active := 0\<rparr>
             else v\<lparr>envelope := level\<rparr>))"
    by (simp add: updateEnvelope_def Let_def)
  show "envStage (updateEnvelope s v) \<noteq> envStage v \<longrightarrow>
      (envStage v = 1 \<and> envStage (updateEnvelope s v) = 2) \<or>
      (envStage v = 2 \<and> envStage (updateEnvelope s v) = 3) \<or>
      (envStage v = 4 \<and> envStage (updateEnvelope s v) = 0)"
    using updateEnvelope_edges[of s v] by (rule conjunct1)
  show "active (updateEnvelope s v) \<noteq> active v \<longrightarrow>
      envStage v = 4 \<and> envStage (updateEnvelope s v) = 0 \<and> active (updateEnvelope s v) = 0"
    using updateEnvelope_edges[of s v] by (rule conjunct2)
qed

theorem updateEnvelope_state_machine_witness:
  "updateEnvelope initial_instrument (zero_voice\<lparr>active := 1, envStage := 1, envelope := Fin 0.5\<rparr>)
     = zero_voice\<lparr>active := 1, envStage := 1, envelope := Fin (0.5 + 1 / 441)\<rparr> \<and>
   updateEnvelope initial_instrument (zero_voice\<lparr>active := 1, envStage := 1, envelope := Fin 0.999\<rparr>)
     = zero_voice\<lparr>active := 1, envStage := 2, envelope := Fin 1\<rparr> \<and>
   updateEnvelope initial_instrument (zero_voice\<lparr>active := 1, envStage := 2, envelope := Fin 0.7\<rparr>)
     = zero_voice\<lparr>active := 1, envStage := 3, envelope := Fin 0.7\<rparr> \<and>
   updateEnvelope initial_instrument (zero_voice\<lparr>active := 1, envStage := 3, envelope := Fin 0.7\<rparr>)
     = zero_voice\<lparr>active := 1, envStage := 3, envelope := Fin 0.7\<rparr> \<and>
   updateEnvelope initial_instrument (zero_voice\<lparr>active := 1, envStage := 4, envelope := Fin 0.001\<rparr>)
     = zero_voice\<lparr>active := 0, envStage := 0, envelope := Fin 0\<rparr>"
  using updateEnvelope_state_machine
      [of "zero_voice\<lparr>active := 1, envStage := 1, envelope := Fin 0.5\<rparr>" initial_instrument,
       THEN conjunct2, THEN conjunct1]
    updateEnvelope_state_machine
      [of "zero_voice\<lparr>active := 1, envStage := 1, envelope := Fin 0.999\<rparr>" initial_instrument,
       THEN conjunct2, THEN conjunct1]
    updateEnvelope_state_machine
      [of "zero_voice\<lparr>active := 1, envStage := 2, envelope := Fin 0.7\<rparr>" initial_instrument,
       THEN conjunct2, THEN conjunct2, THEN conjunct1]
    updateEnvelope_state_machine
      [of "zero_voice\<lparr>active := 1, envStage := 3, envelope := Fin 0.7\<rparr>" initial_instrument,
       THEN conjunct2, THEN conjunct2, THEN conjunct2, THEN conjunct1]
    updateEnvelope_state_machine
      [of "zero_voice\<lparr>active := 1, envStage := 4, envelope := Fin 0.001\<rparr>" initial_instrument,
       THEN conjunct2, THEN conjunct2, THEN conjunct2, THEN conjunct2, THEN conjunct1]
  by (simp add: initial_instrument_def zero_voice_def Let_def)

section \<open>The invariant of the voice pool\<close>

lemma updateEnvelope_ok: "voice_ok v \<Longrightarrow> voice_ok (updateEnvelope s v)"
  by (auto simp: voice_ok_def updateEnvelope_def Let_def)

lemma generateOscillator_stage:
  "generateOscillator v w ns = (x, v', ns') \<Longrightarrow> active v' = active v \<and> envStage v' = envStage v"
  by (auto simp: generateOscillator_def Let_def split: prod.splits if_splits)

lemma processFilter_stage:
  "processFilter s v x = (y, v') \<Longrightarrow> active v' = active v \<and> envStage v' = envStage v"
  by (auto simp: processFilter_def Let_def)

lemma process_voice_invariant:
  assumes "pool_invariant (fst a)"
  shows "pool_invariant (fst (process_voice w d v a))"
proof (cases a)
  case (Pair s acc)
  show ?thesis
  proof (cases "active (voices s v) = 0")
    case True
    with Pair assms show ?thesis by (simp add: process_voice_def)
  next
    case False
    let ?v0 = "(voices s v)\<lparr>phaseIncrement := frequencyToPhaseIncrement s
        (noteToFrequency (voice_note (voices s v)) * powf_two ((pitchBendValue s * Fin 2 + d) / Fin 12))\<rparr>"
    obtain osc v1 ns where g: "generateOscillator ?v0 w (noiseState s) = (osc, v1, ns)"
      by (metis prod_cases3)
    obtain y v2 where f: "processFilter s v1 osc = (y, v2)"
      by (metis surj_pair)
    have ok0: "voice_ok (voices s v) \<or> \<not> v < MAX_VOICES"
      using assms Pair by (auto simp: pool_invariant_def)
    have "active v2 = active (voices s v) \<and> envStage v2 = envStage (voices s v)"
      using generateOscillator_stage[OF g] processFilter_stage[OF f] by simp
    then have ok2: "voice_ok (voices s v) \<Longrightarrow> voice_ok v2"
      by (simp add: voice_ok_def)
    have res: "fst (process_voice w d v a) = s\<lparr>voices := (voices s)(v := updateEnvelope s v2), noiseState := ns\<rparr>"
      using Pair False g f by (simp add: process_voice_def Let_def)
    show ?thesis
      unfolding res using assms Pair ok2 updateEnvelope_ok
      by (auto simp: pool_invariant_def)
  qed
qed

lemma process_sample_invariant:
  assumes "pool_invariant (fst a)"
  shows "pool_invariant (fst (process_sample w d i a))"
proof (cases a)
  case (Pair s out)
  have "pool_invariant (fst (fold (process_voice w d) [0..<MAX_VOICES] (s, Fin 0)))"
    by (rule fold_invariant[where P = "\<lambda>a. pool_invariant (fst a)"])
       (use assms Pair in \<open>simp_all add: process_voice_invariant\<close>)
  then show ?thesis
    using Pair by (auto simp: process_sample_def Let_def split: prod.splits)
qed

lemma process_instrument_invariant:
  assumes "pool_invariant s"
  shows "pool_invariant (fst (process_instrument s inp out numSamples))"
  unfolding process_instrument_def Let_def
  by (rule fold_invariant[where P = "\<lambda>a. pool_invariant (fst a)"])
     (use assms in \<open>simp_all add: process_sample_invariant\<close>)

lemma reset_instrument_invariant: "pool_invariant (reset_instrument s)"
  by (simp add: reset_instrument_eq pool_invariant_def voice_ok_def reset_voice_def)

lemma noteOff_invariant: "pool_invariant s \<Longrightarrow> pool_invariant (noteOff s n ch)"
  by (auto simp: noteOff_pointwise pool_invariant_def voice_ok_def release_matching_def)

lemma noteOn_invariant:
  assumes "pool_invariant s"
  shows "pool_invariant (noteOn s n vel ch)"
proof (cases "vel = 0")
  case True
  then show ?thesis using noteOff_invariant[OF assms] by (simp add: noteOn_def)
next
  case False
  then show ?thesis
    using assms by (simp add: noteOn_def Let_def pool_invariant_def voice_ok_def)
qed

text \<open>
  C4. Every voice of the pool is inactive exactly when its envelope stage is idle: this
  holds for the static initial state and after \<^verbatim>\<open>init\<close>, and \<^verbatim>\<open>process\<close> (which runs
  \<^verbatim>\<open>updateEnvelope\<close> on every active voice for every sample), \<^verbatim>\<open>noteOn\<close>, \<^verbatim>\<open>noteOff\<close>,
  \<^verbatim>\<open>controlChange\<close> (any controller, 123 included), \<^verbatim>\<open>pitchBend\<close>, \<^verbatim>\<open>setParameter\<close> and
  \<^verbatim>\<open>reset\<close> preserve it.
\<close>

theorem active_iff_not_idle:
  "pool_invariant initial_instrument \<and>
   pool_invariant (init_instrument s0 sr bs) \<and>
   (pool_invariant s \<longrightarrow>
      pool_invariant (fst (process_instrument s inp out numSamples)) \<and>
      pool_invariant (noteOn s n vel ch) \<and>
      pool_invariant (noteOff s n ch) \<and>
      pool_invariant (controlChange s cc val ch) \<and>
      pool_invariant (pitchBend s val ch) \<and>
      pool_invariant (setParameter_instrument s j x) \<and>
      pool_invariant (reset_instrument s))"
proof -
  have "pool_invariant initial_instrument"
    by (simp add: pool_invariant_def initial_instrument_def voice_ok_def zero_voice_def)
  moreover have "pool_invariant (init_instrument s0 sr bs)"
    by (simp add: init_instrument_voices pool_invariant_def voice_ok_def init_voice_def)
  moreover have "pool_invariant (controlChange s cc val ch)" if "pool_invariant s"
    using that reset_instrument_invariant
    by (simp add: controlChange_def Let_def pool_invariant_def)
  moreover have "pool_invariant (pitchBend s val ch)" if "pool_invariant s"
    using that by (simp add: pitchBend_def pool_invariant_def)
  moreover have "pool_invariant (setParameter_instrument s j x)" if "pool_invariant s"
    using that by (simp add: setParameter_instrument_def pool_invariant_def)
  ultimately show ?thesis
    using process_instrument_invariant noteOn_invariant noteOff_invariant
      reset_instrument_invariant by blast
qed

theorem active_iff_not_idle_witness:
  "pool_invariant initial_instrument \<and>
   pool_invariant (noteOn initial_instrument 60 100 0) \<and>
   pool_invariant (fst (process_instrument (noteOn initial_instrument 60 100 0)
                          (\<lambda>_. Fin 0) (\<lambda>_. Fin 0) 128)) \<and>
   pool_invariant (controlChange (noteOn initial_instrument 60 100 0) 123 0 0)"
  using active_iff_not_idle [where s = initial_instrument and n = 60 and vel = 100 and ch = 0]
    active_iff_not_idle [where s = "noteOn initial_instrument 60 100 0"
      and inp = "\<lambda>_. Fin 0" and out = "\<lambda>_. Fin 0" and numSamples = 128
      and cc = 123 and val = 0 and ch = 0]
  by blast

section \<open>Voice allocation\<close>

text \<open>The scan finds the first inactive voice at or after \<open>i\<close>, when there is one.\<close>

lemma find_voice_free:
  assumes "\<exists>j. i \<le> j \<and> j < MAX_VOICES \<and> active (vs j) = 0"
  shows "\<exists>r. fst (find_voice vs i t k) = int r \<and> i \<le> r \<and> r < MAX_VOICES \<and> active (vs r) = 0 \<and>
             (\<forall>j. i \<le> j \<and> j < r \<longrightarrow> active (vs j) \<noteq> 0)"
  using assms
proof (induction vs i t k rule: find_voice.induct)
  case (1 vs i t k)
  from "1.prems" have i: "i < MAX_VOICES" by auto
  show ?case
  proof (cases "active (vs i) = 0")
    case True
    with i show ?thesis
      by (subst find_voice.simps) auto
  next
    case False
    with "1.prems" have ex: "\<exists>j. i + 1 \<le> j \<and> j < MAX_VOICES \<and> active (vs j) = 0"
      by (metis Suc_eq_plus1 Suc_leI le_neq_implies_less)
    let ?t = "if envelope (vs i) < t \<or> i = 0 then envelope (vs i) else t"
    let ?k = "if envelope (vs i) < t \<or> i = 0 then int i else k"
    have step: "find_voice vs i t k = find_voice vs (i + 1) ?t ?k"
      using i False by (subst find_voice.simps) simp
    have "\<exists>r. fst (find_voice vs (i + 1) ?t ?k) = int r \<and> i + 1 \<le> r \<and> r < MAX_VOICES \<and>
               active (vs r) = 0 \<and> (\<forall>j. i + 1 \<le> j \<and> j < r \<longrightarrow> active (vs j) \<noteq> 0)"
      using "1.IH"(1)[OF i False _ ex] "1.IH"(2)[OF i False _ ex]
      by (cases "envelope (vs i) < t \<or> i = 0") simp_all
    then obtain r where r: "fst (find_voice vs (i + 1) ?t ?k) = int r" "i + 1 \<le> r" "r < MAX_VOICES"
        "active (vs r) = 0" "\<forall>j. i + 1 \<le> j \<and> j < r \<longrightarrow> active (vs j) \<noteq> 0"
      by blast
    have "\<forall>j. i \<le> j \<and> j < r \<longrightarrow> active (vs j) \<noteq> 0"
    proof (intro allI impI)
      fix j assume "i \<le> j \<and> j < r"
      then show "active (vs j) \<noteq> 0"
        using r(5) False by (cases "j = i") auto
    qed
    with r step show ?thesis
      by (intro exI[of _ r]) auto
  qed
qed

lemma oldest_so_far_step:
  assumes "i = 0 \<or> oldest_so_far vs i t k"
  shows "oldest_so_far vs (i + 1)
           (if envelope (vs i) < t \<or> i = 0 then envelope (vs i) else t)
           (if envelope (vs i) < t \<or> i = 0 then int i else k)"
proof (cases "i = 0")
  case True
  then show ?thesis
    by (simp add: oldest_so_far_def float_less_irrefl)
next
  case False
  with assms have o: "oldest_so_far vs i t k" by simp
  show ?thesis
  proof (cases "envelope (vs i) < t")
    case True
    then have lt: "envelope (vs i) < envelope (vs (nat k))"
      using o by (simp add: oldest_so_far_def)
    have "\<not> envelope (vs j) < envelope (vs i)" if "j < i + 1" for j
    proof (cases "j = i")
      case True
      then show ?thesis by (simp add: float_less_irrefl)
    next
      case False
      with that have "j < i" by simp
      then have "\<not> envelope (vs j) < envelope (vs (nat k))"
        using o by (simp add: oldest_so_far_def)
      then show ?thesis
        using float_less_trans[OF _ lt] by blast
    qed
    moreover have "\<not> envelope (vs j) \<le> envelope (vs i)" if "j < i" for j
    proof -
      from that have "\<not> envelope (vs j) < envelope (vs (nat k))"
        using o by (simp add: oldest_so_far_def)
      then show ?thesis
        using float_le_less_trans[OF _ lt] by blast
    qed
    ultimately show ?thesis
      using True by (simp add: oldest_so_far_def)
  next
    case nlt: False
    have "\<not> envelope (vs j) < envelope (vs (nat k))" if "j < i + 1" for j
      using that o nlt by (cases "j = i") (auto simp: oldest_so_far_def)
    then show ?thesis
      using nlt False o by (auto simp: oldest_so_far_def)
  qed
qed

lemma find_voice_none:
  assumes "\<forall>j. i \<le> j \<and> j < MAX_VOICES \<longrightarrow> active (vs j) \<noteq> 0"
    and "i \<le> MAX_VOICES" and "i = 0 \<or> oldest_so_far vs i t k"
  shows "fst (find_voice vs i t k) = - 1 \<and>
         oldest_so_far vs MAX_VOICES (envelope (vs (nat (snd (find_voice vs i t k)))))
           (snd (find_voice vs i t k))"
  using assms
proof (induction vs i t k rule: find_voice.induct)
  case (1 vs i t k)
  show ?case
  proof (cases "i < MAX_VOICES")
    case False
    with "1.prems" have "i = MAX_VOICES" by simp
    with "1.prems"(3) show ?thesis
      by (subst (1 2 3) find_voice.simps) (simp add: oldest_so_far_def)
  next
    case True
    with "1.prems"(1) have act: "active (vs i) \<noteq> 0" by simp
    let ?t = "if envelope (vs i) < t \<or> i = 0 then envelope (vs i) else t"
    let ?k = "if envelope (vs i) < t \<or> i = 0 then int i else k"
    have step: "find_voice vs i t k = find_voice vs (i + 1) ?t ?k"
      using True act by (subst find_voice.simps) simp
    have all: "\<forall>j. i + 1 \<le> j \<and> j < MAX_VOICES \<longrightarrow> active (vs j) \<noteq> 0"
      using "1.prems"(1) by simp
    have le: "i + 1 \<le> MAX_VOICES" using True by simp
    have o: "i + 1 = 0 \<or> oldest_so_far vs (i + 1) ?t ?k"
      using oldest_so_far_step[OF "1.prems"(3)] by simp
    have "fst (find_voice vs (i + 1) ?t ?k) = - 1 \<and>
         oldest_so_far vs MAX_VOICES (envelope (vs (nat (snd (find_voice vs (i + 1) ?t ?k)))))
           (snd (find_voice vs (i + 1) ?t ?k))"
      using "1.IH"(1)[OF True act _ all le] "1.IH"(2)[OF True act _ all le] o
      by (cases "envelope (vs i) < t \<or> i = 0") simp_all
    then show ?thesis
      by (simp only: step)
  qed
qed

lemma choose_voice_free:
  assumes "\<exists>j<MAX_VOICES. active (vs j) = 0"
  shows "\<exists>r. choose_voice vs = int r \<and> r < MAX_VOICES \<and> active (vs r) = 0 \<and>
             (\<forall>j<r. active (vs j) \<noteq> 0)"
proof -
  from assms have "\<exists>j. 0 \<le> j \<and> j < MAX_VOICES \<and> active (vs j) = 0" by auto
  from find_voice_free[OF this, of "Fin 0" 0]
  obtain r where r: "fst (find_voice vs 0 (Fin 0) 0) = int r" "r < MAX_VOICES" "active (vs r) = 0"
      "\<forall>j. 0 \<le> j \<and> j < r \<longrightarrow> active (vs j) \<noteq> 0"
    by blast
  then have "choose_voice vs = int r"
    by (cases "find_voice vs 0 (Fin 0) 0") (auto simp: choose_voice_def)
  with r show ?thesis by auto
qed

lemma choose_voice_steal:
  assumes "\<forall>j<MAX_VOICES. active (vs j) \<noteq> 0"
  shows "\<exists>r. choose_voice vs = int r \<and> r < MAX_VOICES \<and>
             (\<forall>j<MAX_VOICES. \<not> envelope (vs j) < envelope (vs r)) \<and>
             (\<forall>j<r. \<not> envelope (vs j) \<le> envelope (vs r))"
proof -
  from assms have all: "\<forall>j. 0 \<le> j \<and> j < MAX_VOICES \<longrightarrow> active (vs j) \<noteq> 0" by auto
  have fv: "fst (find_voice vs 0 (Fin 0) 0) = - 1 \<and>
         oldest_so_far vs MAX_VOICES (envelope (vs (nat (snd (find_voice vs 0 (Fin 0) 0)))))
           (snd (find_voice vs 0 (Fin 0) 0))"
    by (rule find_voice_none[OF all]) simp_all
  then have c: "choose_voice vs = snd (find_voice vs 0 (Fin 0) 0)"
    by (cases "find_voice vs 0 (Fin 0) 0") (auto simp: choose_voice_def)
  from fv show ?thesis
    unfolding c oldest_so_far_def
    by (intro exI[of _ "nat (snd (find_voice vs 0 (Fin 0) 0))"]) auto
qed

lemma active_below_count:
  assumes "active_below m s" "m \<le> MAX_VOICES"
  shows "active_count s = m"
proof -
  have "filter (\<lambda>i. active (voices s i) \<noteq> 0) [0..<MAX_VOICES] = filter (\<lambda>i. i < m) [0..<MAX_VOICES]"
    using assms(1) by (intro filter_cong) (auto simp: active_below_def)
  then have "active_count s = card ({i. i < m} \<inter> set [0..<MAX_VOICES])"
    by (simp add: active_count_def distinct_length_filter)
  also have "{i. i < m} \<inter> set [0..<MAX_VOICES] = {..<m}"
    using assms(2) by auto
  finally show ?thesis by simp
qed

lemma noteOn_active_below:
  assumes "active_below m s" "m \<le> MAX_VOICES" "vel \<noteq> 0"
  shows "active_below (min (m + 1) MAX_VOICES) (noteOn s n vel ch)"
proof (cases "m < MAX_VOICES")
  case True
  then have "\<exists>j<MAX_VOICES. active (voices s j) = 0"
    using assms(1) by (auto simp: active_below_def intro!: exI[of _ m])
  from choose_voice_free[OF this]
  obtain r where r: "choose_voice (voices s) = int r" "r < MAX_VOICES" "active (voices s r) = 0"
      "\<forall>j<r. active (voices s j) \<noteq> 0"
    by blast
  have "\<not> r < m" using r(2,3) assms(1) by (auto simp: active_below_def)
  moreover have "\<not> m < r"
  proof
    assume "m < r"
    with r(4) have "active (voices s m) \<noteq> 0" by simp
    with True assms(1) show False by (auto simp: active_below_def)
  qed
  ultimately have "r = m" by simp
  with r(1) assms True show ?thesis
    by (auto simp: noteOn_def Let_def active_below_def)
next
  case False
  with assms(2) have m: "m = MAX_VOICES" by simp
  then have "\<forall>j<MAX_VOICES. active (voices s j) \<noteq> 0"
    using assms(1) by (simp add: active_below_def)
  from choose_voice_steal[OF this]
  obtain r where r: "choose_voice (voices s) = int r" "r < MAX_VOICES"
    by blast
  with assms m show ?thesis
    by (auto simp: noteOn_def Let_def active_below_def)
qed

lemma noteOn_all_active_below:
  assumes "active_below m s" "m \<le> MAX_VOICES" "\<forall>(n, vel, ch) \<in> set evs. vel \<noteq> 0"
  shows "active_below (min (m + length evs) MAX_VOICES) (noteOn_all s evs)"
  using assms
proof (induction evs arbitrary: s m)
  case Nil
  then show ?case by simp
next
  case (Cons e evs)
  obtain n vel ch where e: "e = (n, vel, ch)" by (cases e)
  with Cons.prems have vel: "vel \<noteq> 0" by simp
  have a: "active_below (min (m + 1) MAX_VOICES) (noteOn s n vel ch)"
    by (rule noteOn_active_below[OF Cons.prems(1,2) vel])
  have "active_below (min (min (m + 1) MAX_VOICES + length evs) MAX_VOICES)
          (noteOn_all (noteOn s n vel ch) evs)"
    by (rule Cons.IH[OF a]) (use Cons.prems in auto)
  moreover have "min (min (m + 1) MAX_VOICES + length evs) MAX_VOICES
                   = min (m + length (e # evs)) MAX_VOICES"
    by simp
  ultimately show ?case using e by simp
qed

lemma init_active_below: "active_below 0 (init_instrument s sr bs)"
  by (simp add: active_below_def init_instrument_voices init_voice_def)

text \<open>
  C3. The pool never has more than 16 active voices, and after any run of \<^verbatim>\<open>noteOn\<close>
  calls with velocities other than 0 that follows \<^verbatim>\<open>init\<close> the number of active voices
  is the number of calls, capped at 16 (so 17 calls leave exactly 16). Such a \<^verbatim>\<open>noteOn\<close>
  starts one voice (active, in attack) and leaves every other voice as it was. The voice
  is the inactive voice of lowest index when there is one. When all 16 are active it is
  the voice of lowest envelope level, the first of them in index order: no voice has a
  level below its level, and no voice before it has a level as low. The scan takes
  voice 0 as its first candidate whatever \<^verbatim>\<open>oldestTime\<close> and the level of voice 0 are.
\<close>

theorem voice_pool_allocation:
  "active_count s \<le> MAX_VOICES \<and>
   ((\<forall>(n, vel, ch) \<in> set evs. vel \<noteq> 0) \<longrightarrow>
      active_count (noteOn_all (init_instrument s0 sr bs) evs) = min (length evs) MAX_VOICES) \<and>
   (vel \<noteq> 0 \<longrightarrow>
      active (voices (noteOn s n vel ch) (nat (choose_voice (voices s)))) = 1 \<and>
      envStage (voices (noteOn s n vel ch) (nat (choose_voice (voices s)))) = 1 \<and>
      (\<forall>i. i \<noteq> nat (choose_voice (voices s)) \<longrightarrow> voices (noteOn s n vel ch) i = voices s i)) \<and>
   ((\<exists>j<MAX_VOICES. active (voices s j) = 0) \<longrightarrow>
      (\<exists>r<MAX_VOICES. choose_voice (voices s) = int r \<and> active (voices s r) = 0 \<and>
         (\<forall>j<r. active (voices s j) \<noteq> 0))) \<and>
   ((\<forall>j<MAX_VOICES. active (voices s j) \<noteq> 0) \<longrightarrow>
      (\<exists>r<MAX_VOICES. choose_voice (voices s) = int r \<and>
         (\<forall>j<MAX_VOICES. \<not> envelope (voices s j) < envelope (voices s r)) \<and>
         (\<forall>j<r. \<not> envelope (voices s j) \<le> envelope (voices s r)))) \<and>
   (active (voices s 0) \<noteq> 0 \<longrightarrow>
      find_voice (voices s) 0 oldestTime oldestIndex
        = find_voice (voices s) 1 (envelope (voices s 0)) 0)"
proof -
  have 1: "active_count s \<le> MAX_VOICES"
    unfolding active_count_def by (rule order_trans[OF length_filter_le]) simp
  have 2: "active_count (noteOn_all (init_instrument s0 sr bs) evs) = min (length evs) MAX_VOICES"
    if "\<forall>(n, vel, ch) \<in> set evs. vel \<noteq> 0"
    using noteOn_all_active_below[OF init_active_below _ that, of s0 sr bs]
    by (intro active_below_count) simp_all
  have 3: "active (voices (noteOn s n vel ch) (nat (choose_voice (voices s)))) = 1 \<and>
      envStage (voices (noteOn s n vel ch) (nat (choose_voice (voices s)))) = 1 \<and>
      (\<forall>i. i \<noteq> nat (choose_voice (voices s)) \<longrightarrow> voices (noteOn s n vel ch) i = voices s i)"
    if "vel \<noteq> 0"
    using that by (simp add: noteOn_def Let_def)
  have 4: "\<exists>r<MAX_VOICES. choose_voice (voices s) = int r \<and> active (voices s r) = 0 \<and>
         (\<forall>j<r. active (voices s j) \<noteq> 0)"
    if "\<exists>j<MAX_VOICES. active (voices s j) = 0"
    using choose_voice_free[OF that] by blast
  have 5: "\<exists>r<MAX_VOICES. choose_voice (voices s) = int r \<and>
         (\<forall>j<MAX_VOICES. \<not> envelope (voices s j) < envelope (voices s r)) \<and>
         (\<forall>j<r. \<not> envelope (voices s j) \<le> envelope (voices s r))"
    if "\<forall>j<MAX_VOICES. active (voices s j) \<noteq> 0"
    using choose_voice_steal[OF that] by blast
  have 6: "find_voice (voices s) 0 oldestTime oldestIndex
        = find_voice (voices s) 1 (envelope (voices s 0)) 0"
    if "active (voices s 0) \<noteq> 0"
    using that by (subst find_voice.simps) simp
  from 1 2 3 4 5 6 show ?thesis by blast
qed

theorem voice_pool_allocation_witness:
  "active_count (noteOn_all (init_instrument initial_instrument (Fin 44100) 128)
      (replicate 17 (60, 100, 0))) = 16 \<and>
   choose_voice (voices initial_instrument) = 0 \<and>
   choose_voice full_pool = 5"
proof -
  have "active_count (noteOn_all (init_instrument initial_instrument (Fin 44100) 128)
      (replicate 17 (60, 100, 0))) = 16"
    using voice_pool_allocation [where evs = "replicate 17 (60, 100, 0)"
        and ?s0.0 = initial_instrument and sr = "Fin 44100" and bs = 128]
    by simp
  moreover have "choose_voice (voices initial_instrument) = 0"
    by (simp add: choose_voice_def find_voice.simps initial_instrument_def zero_voice_def)
  moreover have "choose_voice full_pool = 5"
    by (simp add: choose_voice_def find_voice.simps full_pool_def zero_voice_def)
  ultimately show ?thesis by simp
qed

section \<open>MIDI values\<close>

text \<open>
  C9, as the code has it. No boundary function of the instrument signals failure, and
  only \<^verbatim>\<open>setParameter\<close> clamps. \<^verbatim>\<open>noteOn\<close> stores \<^verbatim>\<open>velocity / 127.0f\<close> and
  \<^verbatim>\<open>controlChange\<close> stores \<^verbatim>\<open>value / 127.0f\<close> as they are: the voice velocity lies in
  0..1 for a MIDI velocity in 1..127, and the mod wheel and the master volume stay in 0..1
  under a control change whose value lies in 0..127.
\<close>

theorem midi_values_scaled:
  "(vel \<noteq> 0 \<longrightarrow>
      velocity (voices (noteOn s n vel ch) (nat (choose_voice (voices s))))
        = float_of_int vel / Fin 127) \<and>
   (1 \<le> vel \<and> vel \<le> 127 \<longrightarrow>
      Fin 0 \<le> velocity (voices (noteOn s n vel ch) (nat (choose_voice (voices s)))) \<and>
      velocity (voices (noteOn s n vel ch) (nat (choose_voice (voices s)))) \<le> Fin 1) \<and>
   modWheel (controlChange s 1 val ch) = float_of_int val / Fin 127 \<and>
   masterVolume (controlChange s 7 val ch) = float_of_int val / Fin 127 \<and>
   (0 \<le> val \<and> val \<le> 127 \<and>
    Fin 0 \<le> modWheel s \<and> modWheel s \<le> Fin 1 \<and>
    Fin 0 \<le> masterVolume s \<and> masterVolume s \<le> Fin 1 \<longrightarrow>
      Fin 0 \<le> modWheel (controlChange s cc val ch) \<and>
      modWheel (controlChange s cc val ch) \<le> Fin 1 \<and>
      Fin 0 \<le> masterVolume (controlChange s cc val ch) \<and>
      masterVolume (controlChange s cc val ch) \<le> Fin 1)"
  by (simp add: noteOn_def controlChange_def Let_def float_of_int_def reset_instrument_eq)

theorem midi_values_scaled_witness:
  "velocity (voices (noteOn initial_instrument 69 127 0) 0) = Fin 1 \<and>
   modWheel (controlChange initial_instrument 1 0 0) = Fin 0 \<and>
   masterVolume (controlChange initial_instrument 7 127 0) = Fin 1 \<and>
   masterVolume (controlChange initial_instrument 123 64 0) = Fin 0.8"
proof -
  have c: "choose_voice (voices initial_instrument) = 0"
    by (simp add: choose_voice_def find_voice.simps initial_instrument_def zero_voice_def)
  have m: "masterVolume initial_instrument = Fin 0.8"
    by (simp add: initial_instrument_def)
  show ?thesis
    using midi_values_scaled [where s = initial_instrument and vel = 127 and n = 69
        and ch = 0 and val = 0 and cc = 1]
      midi_values_scaled [where s = initial_instrument and vel = 127 and n = 69
        and ch = 0 and val = 127 and cc = 7]
    by (simp add: c float_of_int_def m controlChange_def reset_instrument_eq)
qed

text \<open>
  C9 as stated fails outside 0..127: \<^verbatim>\<open>noteOn(60, 200, 0)\<close> gives the voice the velocity
  200/127, above 1, and \<^verbatim>\<open>controlChange(7, 200, 0)\<close> and \<^verbatim>\<open>controlChange(1, -5, 0)\<close>
  leave the master volume above 1 and the mod wheel below 0.
\<close>

theorem midi_values_not_clamped:
  "velocity (voices (noteOn initial_instrument 60 200 0) 0) = Fin (200 / 127) \<and>
   \<not> velocity (voices (noteOn initial_instrument 60 200 0) 0) \<le> Fin 1 \<and>
   \<not> masterVolume (controlChange initial_instrument 7 200 0) \<le> Fin 1 \<and>
   \<not> Fin 0 \<le> modWheel (controlChange initial_instrument 1 (- 5) 0)"
proof -
  have c: "choose_voice (voices initial_instrument) = 0"
    by (simp add: choose_voice_def find_voice.simps initial_instrument_def zero_voice_def)
  show ?thesis
    by (simp add: noteOn_def c Let_def float_of_int_def controlChange_def)
qed

section \<open>The instrument: the mixer\<close>

lemma generateOscillator_level:
  "generateOscillator v w ns = (x, v', ns') \<Longrightarrow>
     envelope v' = envelope v \<and> velocity v' = velocity v \<and>
     ns' = (if w = WAVE_NOISE then snd (noise ns) else ns)"
  by (auto simp: generateOscillator_def Let_def split: prod.splits if_splits)

lemma processFilter_level:
  "processFilter s v x = (y, v') \<Longrightarrow> envelope v' = envelope v \<and> velocity v' = velocity v"
  by (auto simp: processFilter_def Let_def)

lemma voices_upto_fields [simp]:
  "params (voices_upto w d s n) = params s"
  "sampleRate (voices_upto w d s n) = sampleRate s"
  "pitchBendValue (voices_upto w d s n) = pitchBendValue s"
  "masterVolume (voices_upto w d s n) = masterVolume s"
  "noiseState (voices_upto w d s n) = noise_before w s n"
  "voices (voices_upto w d s n) n = voices s n"
  by (simp_all add: voices_upto_def)

lemma processFilter_cong:
  "params s' = params s \<Longrightarrow> sampleRate s' = sampleRate s \<Longrightarrow> processFilter s' = processFilter s"
  by (simp add: processFilter_def fun_eq_iff Let_def)

lemma updateEnvelope_cong:
  "params s' = params s \<Longrightarrow> sampleRate s' = sampleRate s \<Longrightarrow> updateEnvelope s' = updateEnvelope s"
  by (simp add: updateEnvelope_def fun_eq_iff Let_def)

lemma active_filter_Suc:
  "filter (\<lambda>u. active (voices s u) \<noteq> 0) [0..<Suc n]
     = filter (\<lambda>u. active (voices s u) \<noteq> 0) [0..<n] @ (if active (voices s n) \<noteq> 0 then [n] else [])"
  by simp

lemma noise_before_Suc:
  "noise_before w s (Suc n)
     = (if active (voices s n) \<noteq> 0 \<and> w = WAVE_NOISE then snd (noise (noise_before w s n))
        else noise_before w s n)"
  by (simp add: noise_before_def)

lemma mix_upto_Suc:
  "mix_upto w d s (Suc n)
     = (if active (voices s n) \<noteq> 0
        then mix_upto w d s n + filteredOutput w d s n * envelope (voices s n) * velocity (voices s n)
        else mix_upto w d s n)"
  by (simp add: mix_upto_def)

lemma voices_upto_Suc_inactive:
  assumes "active (voices s n) = 0"
  shows "voices_upto w d s (Suc n) = voices_upto w d s n"
proof -
  have "(\<lambda>u. if u < Suc n \<and> active (voices s u) \<noteq> 0 then voice_after w d s u else voices s u)
      = (\<lambda>u. if u < n \<and> active (voices s u) \<noteq> 0 then voice_after w d s u else voices s u)"
    using assms by (auto simp: fun_eq_iff less_Suc_eq)
  then show ?thesis
    using assms by (simp add: voices_upto_def noise_before_Suc)
qed

lemma voices_upto_Suc_active:
  assumes "active (voices s n) \<noteq> 0"
  shows "voices_upto w d s (Suc n)
           = (voices_upto w d s n)\<lparr>voices := (voices (voices_upto w d s n))(n := voice_after w d s n),
                noiseState := (if w = WAVE_NOISE then snd (noise (noise_before w s n))
                               else noise_before w s n)\<rparr>"
proof -
  have "(\<lambda>u. if u < Suc n \<and> active (voices s u) \<noteq> 0 then voice_after w d s u else voices s u)
      = (\<lambda>u. if u < n \<and> active (voices s u) \<noteq> 0 then voice_after w d s u else voices s u)
          (n := voice_after w d s n)"
    using assms by (auto simp: fun_eq_iff less_Suc_eq)
  then show ?thesis
    using assms by (simp add: voices_upto_def noise_before_Suc)
qed

lemma process_voice_step:
  "process_voice w d n (voices_upto w d s n, mix_upto w d s n)
     = (voices_upto w d s (Suc n), mix_upto w d s (Suc n))"
proof (cases "active (voices s n) = 0")
  case True
  then show ?thesis
    by (simp add: process_voice_def voices_upto_Suc_inactive mix_upto_Suc)
next
  case False
  let ?r = "voices_upto w d s n"
  have fp: "frequencyToPhaseIncrement ?r = frequencyToPhaseIncrement s"
    by (simp add: frequencyToPhaseIncrement_def fun_eq_iff)
  have prep: "(voices s n)\<lparr>phaseIncrement := frequencyToPhaseIncrement s
        (noteToFrequency (voice_note (voices s n))
           * powf_two ((pitchBendValue s * Fin 2 + d) / Fin 12))\<rparr> = voice_prepared d s n"
    by (simp add: voice_prepared_def)
  obtain osc v1 ns where g: "generateOscillator (voice_prepared d s n) w (noise_before w s n) = (osc, v1, ns)"
    by (metis prod_cases3)
  obtain y v2 where f: "processFilter s v1 osc = (y, v2)"
    by (metis surj_pair)
  have pf: "processFilter ?r = processFilter s" by (rule processFilter_cong) simp_all
  have ue: "updateEnvelope ?r = updateEnvelope s" by (rule updateEnvelope_cong) simp_all
  have lv: "envelope v2 = envelope (voices s n)" "velocity v2 = velocity (voices s n)"
    using generateOscillator_level[OF g] processFilter_level[OF f]
    by (simp_all add: voice_prepared_def)
  have ns: "ns = (if w = WAVE_NOISE then snd (noise (noise_before w s n)) else noise_before w s n)"
    using generateOscillator_level[OF g] by simp
  have fo: "filteredOutput w d s n = y"
    by (simp add: filteredOutput_def g f)
  have va: "voice_after w d s n = updateEnvelope s v2"
    by (simp add: voice_after_def g f)
  have "process_voice w d n (?r, mix_upto w d s n)
          = (?r\<lparr>voices := (voices ?r)(n := updateEnvelope s v2), noiseState := ns\<rparr>,
             mix_upto w d s n + y * envelope v2 * velocity v2)"
    using False by (simp add: process_voice_def Let_def fp prep g pf f ue)
  also have "\<dots> = (voices_upto w d s (Suc n), mix_upto w d s (Suc n))"
    using False by (simp add: voices_upto_Suc_active mix_upto_Suc fo va lv ns)
  finally show ?thesis .
qed

lemma voices_upto_0: "voices_upto w d s 0 = s" "mix_upto w d s 0 = Fin 0"
  by (simp_all add: voices_upto_def noise_before_def mix_upto_def)

lemma voice_loop:
  "fold (process_voice w d) [0..<n] (s, Fin 0) = (voices_upto w d s n, mix_upto w d s n)"
proof (induction n)
  case 0
  show ?case by (simp add: voices_upto_0)
next
  case (Suc n)
  have "fold (process_voice w d) [0..<Suc n] (s, Fin 0)
          = process_voice w d n (fold (process_voice w d) [0..<n] (s, Fin 0))"
    by simp
  also have "\<dots> = (voices_upto w d s (Suc n), mix_upto w d s (Suc n))"
    by (simp only: Suc.IH process_voice_step)
  finally show ?case .
qed

lemma process_sample_eq:
  "process_sample w d i (s, out)
     = (sample_step w d s,
        out(i * NUM_CHANNELS := tanhf (voice_mix w d s * masterVolume s),
            i * NUM_CHANNELS + 1 := tanhf (voice_mix w d s * masterVolume s)))"
  by (simp add: process_sample_def voice_loop sample_step_def voice_mix_def Let_def)

lemma sample_step_fields [simp]:
  "params (sample_step w d s) = params s"
  "sampleRate (sample_step w d s) = sampleRate s"
  "masterVolume (sample_step w d s) = masterVolume s"
  by (simp_all add: sample_step_def)

lemma sample_steps_fields [simp]:
  "params ((sample_step w d ^^ i) s) = params s"
  "sampleRate ((sample_step w d ^^ i) s) = sampleRate s"
  "masterVolume ((sample_step w d ^^ i) s) = masterVolume s"
  by (induction i) simp_all

lemma odd_mod: "Suc (n * 2) mod 2 = Suc 0" "Suc (n * 2) div 2 = n"
  by presburger+

lemma sample_loop:
  "fold (process_sample w d) [0..<n] (s, out)
     = ((sample_step w d ^^ n) s,
        (\<lambda>k. if k < NUM_CHANNELS * n
             then tanhf (voice_mix w d ((sample_step w d ^^ (k div NUM_CHANNELS)) s) * masterVolume s)
             else out k))"
proof (induction n)
  case 0
  show ?case by simp
next
  case (Suc n)
  let ?O = "\<lambda>n k. if k < NUM_CHANNELS * n
             then tanhf (voice_mix w d ((sample_step w d ^^ (k div NUM_CHANNELS)) s) * masterVolume s)
             else out k"
  have "fold (process_sample w d) [0..<Suc n] (s, out)
          = process_sample w d n (fold (process_sample w d) [0..<n] (s, out))"
    by simp
  also have "\<dots> = process_sample w d n ((sample_step w d ^^ n) s, ?O n)"
    by (simp only: Suc.IH)
  also have "\<dots> = ((sample_step w d ^^ Suc n) s, ?O (Suc n))"
  proof -
    have "(?O n)(n * 2 := tanhf (voice_mix w d ((sample_step w d ^^ n) s) * masterVolume s),
                 Suc (n * 2) := tanhf (voice_mix w d ((sample_step w d ^^ n) s) * masterVolume s))
            = ?O (Suc n)"
    proof (rule ext)
      fix k
      have "k = n * 2 \<or> k = Suc (n * 2) \<or> k < 2 * n \<or> k \<ge> 2 * Suc n"
        by arith
      then consider "k = n * 2" | "k = Suc (n * 2)" | "k < 2 * n" | "k \<ge> 2 * Suc n"
        by blast
      then show "((?O n)(n * 2 := tanhf (voice_mix w d ((sample_step w d ^^ n) s) * masterVolume s),
                 Suc (n * 2) := tanhf (voice_mix w d ((sample_step w d ^^ n) s) * masterVolume s))) k
            = ?O (Suc n) k"
        by cases (simp_all add: odd_mod)
    qed
    then show ?thesis
      by (simp add: process_sample_eq)
  qed
  finally show ?case .
qed

lemma process_instrument_eq:
  "process_instrument s inp out n
     = ((sample_step (int_of_float (params s 0)) (params s 7) ^^ n) s,
        (\<lambda>k. if k < NUM_CHANNELS * n
             then tanhf (voice_mix (int_of_float (params s 0)) (params s 7)
                           ((sample_step (int_of_float (params s 0)) (params s 7)
                               ^^ (k div NUM_CHANNELS)) s) * masterVolume s)
             else out k))"
  by (simp add: process_instrument_def Let_def sample_loop fun_eq_iff mult.commute)

lemma updateEnvelope_level_cong:
  "envStage a = envStage b \<Longrightarrow> envelope a = envelope b \<Longrightarrow>
     envelope (updateEnvelope s a) = envelope (updateEnvelope s b) \<and>
     envStage (updateEnvelope s a) = envStage (updateEnvelope s b)"
  by (simp add: updateEnvelope_def Let_def)

lemma voice_after_level:
  "envelope (voice_after w d s v) = envelope (updateEnvelope s (voices s v)) \<and>
   envStage (voice_after w d s v) = envStage (updateEnvelope s (voices s v))"
proof -
  obtain osc v1 ns where g: "generateOscillator (voice_prepared d s v) w (noise_before w s v) = (osc, v1, ns)"
    by (metis prod_cases3)
  obtain y v2 where f: "processFilter s v1 osc = (y, v2)"
    by (metis surj_pair)
  have "envelope v2 = envelope (voices s v)" "envStage v2 = envStage (voices s v)"
    using generateOscillator_level[OF g] processFilter_level[OF f]
      generateOscillator_stage[OF g] processFilter_stage[OF f]
    by (simp_all add: voice_prepared_def)
  then show ?thesis
    using updateEnvelope_level_cong[of v2 "voices s v" s]
    by (simp add: voice_after_def g f)
qed

text \<open>
  C5. For every sample index \<open>i\<close> of a call of \<^verbatim>\<open>process\<close>, both cells of the stereo pair
  written for sample \<open>i\<close> hold \<open>tanh(masterVolume * S)\<close>. \<open>S\<close> is the sum, over the voices
  that are active when sample \<open>i\<close> starts and in index order, of
  \<open>filteredOutput * envelope * velocity\<close>, with the envelope level and the velocity the
  voice has when the sample starts. \<^verbatim>\<open>updateEnvelope\<close> runs after the voice has
  contributed: in the state after the sample, the level and the stage of such a voice are
  what \<^verbatim>\<open>updateEnvelope\<close> makes of the values at the start of the sample, and a voice that
  was inactive is unchanged. The state in which sample \<open>i\<close> starts is the state a call
  with \<open>i\<close> samples returns.
\<close>

theorem process_instrument_mix:
  "i < numSamples \<longrightarrow>
     (let w = int_of_float (params s 0);
          d = params s 7;
          before = fst (process_instrument s inp out i);
          after = fst (process_instrument s inp out (Suc i));
          r = snd (process_instrument s inp out numSamples)
      in r (i * NUM_CHANNELS) = tanhf (masterVolume s * voice_mix w d before) \<and>
         r (i * NUM_CHANNELS + 1) = tanhf (masterVolume s * voice_mix w d before) \<and>
         voice_mix w d before =
           foldl (\<lambda>acc v. acc + filteredOutput w d before v * envelope (voices before v)
                                  * velocity (voices before v))
             (Fin 0) (filter (\<lambda>v. active (voices before v) \<noteq> 0) [0..<MAX_VOICES]) \<and>
         (\<forall>v<MAX_VOICES. active (voices before v) \<noteq> 0 \<longrightarrow>
            envelope (voices after v) = envelope (updateEnvelope before (voices before v)) \<and>
            envStage (voices after v) = envStage (updateEnvelope before (voices before v))) \<and>
         (\<forall>v<MAX_VOICES. active (voices before v) = 0 \<longrightarrow> voices after v = voices before v))"
proof (intro impI)
  assume i: "i < numSamples"
  let ?w = "int_of_float (params s 0)" and ?d = "params s 7"
  let ?b = "(sample_step ?w ?d ^^ i) s"
  have b: "fst (process_instrument s inp out i) = ?b"
    by (simp add: process_instrument_eq)
  have a: "fst (process_instrument s inp out (Suc i)) = sample_step ?w ?d ?b"
    by (simp add: process_instrument_eq)
  have idx: "i * NUM_CHANNELS < NUM_CHANNELS * numSamples"
    "i * NUM_CHANNELS + 1 < NUM_CHANNELS * numSamples"
    "(i * NUM_CHANNELS + 1) div NUM_CHANNELS = i"
    using i by simp_all
  have r0: "snd (process_instrument s inp out numSamples) (i * NUM_CHANNELS)
          = tanhf (masterVolume s * voice_mix ?w ?d ?b)"
    using idx by (simp add: process_instrument_eq float_mul_commute)
  have r1: "snd (process_instrument s inp out numSamples) (i * NUM_CHANNELS + 1)
          = tanhf (masterVolume s * voice_mix ?w ?d ?b)"
    using idx by (simp only: process_instrument_eq snd_conv if_True float_mul_commute)
  have lag: "envelope (voices (sample_step ?w ?d ?b) v) = envelope (updateEnvelope ?b (voices ?b v)) \<and>
            envStage (voices (sample_step ?w ?d ?b) v) = envStage (updateEnvelope ?b (voices ?b v))"
    if "v < MAX_VOICES" "active (voices ?b v) \<noteq> 0" for v
    using that voice_after_level[of ?w ?d ?b v]
    by (simp add: sample_step_def voices_upto_def)
  have idle: "voices (sample_step ?w ?d ?b) v = voices ?b v"
    if "active (voices ?b v) = 0" for v
    using that by (simp add: sample_step_def voices_upto_def)
  show "let w = int_of_float (params s 0);
          d = params s 7;
          before = fst (process_instrument s inp out i);
          after = fst (process_instrument s inp out (Suc i));
          r = snd (process_instrument s inp out numSamples)
      in r (i * NUM_CHANNELS) = tanhf (masterVolume s * voice_mix w d before) \<and>
         r (i * NUM_CHANNELS + 1) = tanhf (masterVolume s * voice_mix w d before) \<and>
         voice_mix w d before =
           foldl (\<lambda>acc v. acc + filteredOutput w d before v * envelope (voices before v)
                                  * velocity (voices before v))
             (Fin 0) (filter (\<lambda>v. active (voices before v) \<noteq> 0) [0..<MAX_VOICES]) \<and>
         (\<forall>v<MAX_VOICES. active (voices before v) \<noteq> 0 \<longrightarrow>
            envelope (voices after v) = envelope (updateEnvelope before (voices before v)) \<and>
            envStage (voices after v) = envStage (updateEnvelope before (voices before v))) \<and>
         (\<forall>v<MAX_VOICES. active (voices before v) = 0 \<longrightarrow> voices after v = voices before v)"
    unfolding Let_def b a
    using r0 r1 lag idle by (simp add: voice_mix_def mix_upto_def)
qed

theorem process_instrument_mix_witness:
  "snd (process_instrument one_voice (\<lambda>_. Fin 0) (\<lambda>_. Fin 9) 2) 0 = Fin 0 \<and>
   snd (process_instrument one_voice (\<lambda>_. Fin 0) (\<lambda>_. Fin 9) 2) 1 = Fin 0 \<and>
   envelope (voices one_voice 0) = Fin 0 \<and>
   envelope (voices (fst (process_instrument one_voice (\<lambda>_. Fin 0) (\<lambda>_. Fin 9) 1)) 0) = Fin (1 / 441)"
proof -
  have b: "fst (process_instrument one_voice (\<lambda>_. Fin 0) (\<lambda>_. Fin 9) 0) = one_voice"
    by (simp add: process_instrument_def)
  have p: "params one_voice 0 = Fin 0" "params one_voice 7 = Fin 0" "params one_voice (Suc 0) = Fin 0.01"
    "params one_voice 5 = Fin 5000" "params one_voice 6 = Fin 0.3"
    "sampleRate one_voice = Fin 44100" "masterVolume one_voice = Fin 0.8"
    by (simp_all add: one_voice_def initial_instrument_def)
  have w: "int_of_float (Fin 0) = 0"
    by (simp add: int_of_float_def trunc_def)
  have v0: "voices one_voice 0 = zero_voice\<lparr>active := 1, voice_note := 69, velocity := Fin 1, envStage := 1\<rparr>"
    by (simp add: one_voice_def)
  have act: "filter (\<lambda>v. active (voices one_voice v) \<noteq> 0) [0..<MAX_VOICES] = [0]"
    by (simp add: one_voice_def zero_voice_def upt_rec)
  have osc: "fst (generateOscillator (voice_prepared (Fin 0) one_voice 0) 0 ns) = Fin 0" for ns
    by (simp add: generateOscillator_def Let_def sinf_def TWO_PI_def PI_def voice_prepared_def
          v0 zero_voice_def split: prod.splits)
  have fo: "filteredOutput 0 (Fin 0) one_voice 0 = Fin 0"
  proof -
    obtain x v1 ns where g: "generateOscillator (voice_prepared (Fin 0) one_voice 0) 0
        (noise_before 0 one_voice 0) = (x, v1, ns)"
      by (metis prod_cases3)
    have x: "x = Fin 0" using osc[of "noise_before 0 one_voice 0"] g by simp
    have "filterState0 v1 = Fin 0" "filterState1 v1 = Fin 0" "envelope v1 = Fin 0"
      using g by (auto simp: generateOscillator_def Let_def voice_prepared_def v0 zero_voice_def
          split: prod.splits if_splits)
    then have "fst (processFilter one_voice v1 x) = Fin 0"
      by (simp add: processFilter_def Let_def p clamp_def PI_def sinf_def)
    then show ?thesis
      by (simp add: filteredOutput_def g)
  qed
  have env: "envelope (updateEnvelope one_voice (voices one_voice 0)) = Fin (1 / 441)"
    by (simp add: updateEnvelope_def Let_def p v0 zero_voice_def)
  have a0: "active (voices one_voice 0) \<noteq> 0" and e0: "envelope (voices one_voice 0) = Fin 0"
    and l0: "velocity (voices one_voice 0) = Fin 1"
    by (simp_all add: v0 zero_voice_def)
  have vm: "voice_mix 0 (Fin 0) one_voice = Fin 0"
    by (simp add: voice_mix_def mix_upto_def act fo e0 l0)
  note t = process_instrument_mix [where s = one_voice and i = 0 and numSamples = 2
        and inp = "\<lambda>_. Fin 0" and out = "\<lambda>_. Fin 9"]
  from t have "snd (process_instrument one_voice (\<lambda>_. Fin 0) (\<lambda>_. Fin 9) 2) 0 = Fin 0"
    and "snd (process_instrument one_voice (\<lambda>_. Fin 0) (\<lambda>_. Fin 9) 2) 1 = Fin 0"
    by (simp_all add: Let_def b p w vm tanhf_def)
  moreover from t have "envelope (voices (fst (process_instrument one_voice (\<lambda>_. Fin 0)
      (\<lambda>_. Fin 9) 1)) 0) = envelope (updateEnvelope one_voice (voices one_voice 0))"
    using a0 by (auto simp: Let_def b)
  ultimately show ?thesis
    by (simp add: e0 env)
qed

section \<open>The effect: interleaved processing\<close>

lemma lowpass_filterState_update [simp]:
  "lowpass (s\<lparr>filterState_effect := F\<rparr>) = lowpass s"
  by (simp add: lowpass_def fun_eq_iff)

lemma upt_0_2: "[0..<2] = [0, Suc 0]"
  by (simp add: upt_rec)

lemma process_effect_closed:
  "fold (\<lambda>i. fold (\<lambda>ch. let idx = i * NUM_CHANNELS + ch
                         in process_one g m (params_effect s 2) inp ch idx idx)
                [0..<NUM_CHANNELS])
     [0..<n] (s, out)
   = (s\<lparr>filterState_effect :=
          (\<lambda>ch. if ch < NUM_CHANNELS then lowpass_run s inp ch n else filterState_effect s ch)\<rparr>,
      (\<lambda>k. if k < NUM_CHANNELS * n
           then lerp (inp k) (lowpass_run s inp (k mod NUM_CHANNELS) (Suc (k div NUM_CHANNELS))) m * g
           else out k))"
proof (induction n)
  case 0
  have "(\<lambda>ch. if ch < NUM_CHANNELS then lowpass_run s inp ch 0 else filterState_effect s ch)
          = filterState_effect s"
    by (simp add: fun_eq_iff)
  then show ?case by simp
next
  case (Suc n)
  let ?F = "\<lambda>n ch. if ch < NUM_CHANNELS then lowpass_run s inp ch n else filterState_effect s ch"
  let ?O = "\<lambda>n k. if k < NUM_CHANNELS * n
           then lerp (inp k) (lowpass_run s inp (k mod NUM_CHANNELS) (Suc (k div NUM_CHANNELS))) m * g
           else out k"
  let ?body = "\<lambda>i. fold (\<lambda>ch. let idx = i * NUM_CHANNELS + ch
                         in process_one g m (params_effect s 2) inp ch idx idx) [0..<NUM_CHANNELS]"
  have "fold ?body [0..<Suc n] (s, out) = ?body n (fold ?body [0..<n] (s, out))"
    by simp
  also have "\<dots> = ?body n (s\<lparr>filterState_effect := ?F n\<rparr>, ?O n)"
    by (simp only: Suc.IH)
  also have "\<dots> = (s\<lparr>filterState_effect := ?F (Suc n)\<rparr>, ?O (Suc n))"
  proof -
    have F: "(?F n)(0 := lowpass s (inp (n * 2)) (lowpass_run s inp 0 n) (params_effect s 2),
                  Suc 0 := lowpass s (inp (Suc (n * 2))) (lowpass_run s inp (Suc 0) n) (params_effect s 2))
             = ?F (Suc n)"
      by (auto simp: fun_eq_iff less_Suc_eq numeral_2_eq_2)
    have O: "(?O n)(n * 2 := lerp (inp (n * 2)) (lowpass_run s inp 0 (Suc n)) m * g,
                  Suc (n * 2) := lerp (inp (Suc (n * 2))) (lowpass_run s inp (Suc 0) (Suc n)) m * g)
             = ?O (Suc n)"
    proof (rule ext)
      fix k
      have "k = n * 2 \<or> k = Suc (n * 2) \<or> k < 2 * n \<or> k \<ge> 2 * Suc n"
        by arith
      then consider "k = n * 2" | "k = Suc (n * 2)" | "k < 2 * n" | "k \<ge> 2 * Suc n"
        by blast
      then show "((?O n)(n * 2 := lerp (inp (n * 2)) (lowpass_run s inp 0 (Suc n)) m * g,
                  Suc (n * 2) := lerp (inp (Suc (n * 2))) (lowpass_run s inp (Suc 0) (Suc n)) m * g)) k
             = ?O (Suc n) k"
        by cases (simp_all add: odd_mod)
    qed
    show ?thesis
      by (simp add: upt_0_2 process_one_def Let_def F[simplified] O[simplified])
  qed
  finally show ?case .
qed

lemma alpha_bounds:
  assumes "0 < r" "0 < (q::real)"
  shows "0 < (1 / r) / (1 / q + 1 / r)" "(1 / r) / (1 / q + 1 / r) < 1" "1 / q + 1 / r \<noteq> 0"
proof -
  have dt: "0 < 1 / r" and rc: "0 < 1 / q" using assms by simp_all
  then have sum: "0 < 1 / q + 1 / r" by (rule add_pos_pos[rotated])
  show "0 < (1 / r) / (1 / q + 1 / r)"
    using dt sum by (rule divide_pos_pos)
  have "1 / r < 1 / q + 1 / r" using rc by simp
  then show "(1 / r) / (1 / q + 1 / r) < 1"
    using sum by (simp only: divide_less_eq_1_pos)
  show "1 / q + 1 / r \<noteq> 0" using sum by simp
qed

lemma lowpass_Fin:
  assumes "sampleRate_effect s = Fin r" "0 < r" "0 < c"
  shows "lowpass s (Fin x) (Fin st) (Fin c) = Fin (st + (x - st) * filter_alpha r c)"
proof -
  define q :: real where "q = 2 * 3.14159265 * c"
  have q: "0 < q" unfolding q_def using assms by simp
  have nz: "1 / q + 1 / r \<noteq> 0" by (rule alpha_bounds(3)[OF assms(2) q])
  have "Fin 2 * Fin 3.14159265 * Fin c = Fin q"
    by (simp add: q_def)
  moreover have "Fin 1 / Fin q = Fin (1 / q)"
    using q by (intro Fin_divide) simp
  moreover have "Fin 1 / Fin r = Fin (1 / r)"
    using assms(2) by (intro Fin_divide) simp
  moreover have "Fin (1 / r) / Fin (1 / q + 1 / r) = Fin ((1 / r) / (1 / q + 1 / r))"
    by (rule Fin_divide[OF nz])
  moreover have "(1 / r) / (1 / q + 1 / r) = filter_alpha r c"
    by (simp add: filter_alpha_def q_def)
  ultimately show ?thesis
    by (simp add: lowpass_def lerp_def Let_def assms(1))
qed

lemma lowpass_run_finite:
  assumes "sampleRate_effect s = Fin r" "0 < r" "params_effect s 2 = Fin c" "0 < c"
    and "is_finite (filterState_effect s ch)"
    and "\<forall>j<i. is_finite (inp (j * NUM_CHANNELS + ch))"
  shows "is_finite (lowpass_run s inp ch i)"
  using assms(6)
proof (induction i)
  case 0
  show ?case using assms(5) by simp
next
  case (Suc i)
  then obtain st where st: "lowpass_run s inp ch i = Fin st"
    by (auto simp: is_finite_iff)
  from Suc.prems obtain x where x: "inp (i * NUM_CHANNELS + ch) = Fin x"
    by (auto simp: is_finite_iff)
  show ?case
    using lowpass_Fin[OF assms(1,2,4), of x st] st x assms(3)
    by (simp add: is_finite_iff)
qed

lemma lerp_mix_zero: "is_finite a \<Longrightarrow> is_finite b \<Longrightarrow> lerp a b (Fin 0) = a"
  by (auto simp: is_finite_iff lerp_def)

lemma process_effect_eq:
  "process_effect s inp out n
     = (s\<lparr>filterState_effect :=
            (\<lambda>ch. if ch < NUM_CHANNELS then lowpass_run s inp ch n else filterState_effect s ch)\<rparr>,
        (\<lambda>k. if k < NUM_CHANNELS * n
             then lerp (inp k) (lowpass_run s inp (k mod NUM_CHANNELS) (Suc (k div NUM_CHANNELS)))
                    (params_effect s 1) * params_effect s 0
             else out k))"
  using process_effect_closed[of "params_effect s 0" "params_effect s 1" s inp n out]
  by (simp add: process_effect_def Let_def)

lemma bounded_finite: "bounded a \<Longrightarrow> is_finite a"
  by (cases a) (simp_all add: bounded_def is_finite_def)

lemma filter_in_range_finite:
  assumes "filter_in_range s"
  obtains r c where "sampleRate_effect s = Fin r" "0 < r" "params_effect s 2 = Fin c" "0 < c"
proof -
  from assms obtain r where r: "sampleRate_effect s = Fin r" "1 \<le> r"
    by (auto simp: filter_in_range_def is_finite_iff)
  from assms have "Fin 20 \<le> params_effect s 2" "params_effect s 2 \<le> Fin 20000"
    by (simp_all add: filter_in_range_def)
  then obtain c where c: "params_effect s 2 = Fin c" "20 \<le> c"
    by (cases "params_effect s 2") (simp_all add: less_eq_float_def)
  from r c that[of r c] show ?thesis by simp
qed

lemma process_effect_bypass:
  assumes "filter_in_range s" "\<forall>k < NUM_CHANNELS * n. bounded (inp k)" "params_effect s 1 = Fin 0"
    and "k < NUM_CHANNELS * n"
  shows "snd (process_effect s inp out n) k = inp k * params_effect s 0"
proof -
  from assms(1) obtain r c where rc: "sampleRate_effect s = Fin r" "0 < r"
      "params_effect s 2 = Fin c" "0 < c"
    by (rule filter_in_range_finite)
  have ch: "k mod NUM_CHANNELS < NUM_CHANNELS" by simp
  have fs: "is_finite (filterState_effect s (k mod NUM_CHANNELS))"
    using assms(1) ch
    by (cases "k mod NUM_CHANNELS = 0")
       (auto simp: filter_in_range_def less_2_cases_iff intro: bounded_finite)
  have "is_finite (inp (j * NUM_CHANNELS + k mod NUM_CHANNELS))" if "j < Suc (k div NUM_CHANNELS)" for j
  proof -
    have "j * NUM_CHANNELS + k mod NUM_CHANNELS \<le> k"
      using that by presburger
    then show ?thesis using assms(2,4) by (intro bounded_finite) simp
  qed
  then have "is_finite (lowpass_run s inp (k mod NUM_CHANNELS) (Suc (k div NUM_CHANNELS)))"
    by (intro lowpass_run_finite[OF rc fs]) simp
  moreover have "is_finite (inp k)" using assms(2,4) by (intro bounded_finite) simp
  ultimately show ?thesis
    using assms(3,4) by (simp add: process_effect_eq lerp_mix_zero)
qed




section \<open>The effect: planar processing\<close>

lemma process_one_frame:
  assumes "process_one g m c inp ch src dst a = b"
  shows "snd b = (snd a)(dst := snd b dst) \<and>
         filterState_effect (fst b) = (filterState_effect (fst a))(ch := filterState_effect (fst b) ch) \<and>
         params_effect (fst b) = params_effect (fst a) \<and>
         sampleRate_effect (fst b) = sampleRate_effect (fst a) \<and>
         bufferSize_effect (fst b) = bufferSize_effect (fst a)"
  using assms by (cases a) (auto simp: process_one_def Let_def)

lemma process_one_untouched:
  assumes "untouched B a0 a" "dst < B" "ch < NUM_CHANNELS"
  shows "untouched B a0 (process_one g m c inp ch src dst a)"
proof -
  obtain b where b: "process_one g m c inp ch src dst a = b" by simp
  from process_one_frame[OF b] have
    o: "snd b = (snd a)(dst := snd b dst)" and
    f: "filterState_effect (fst b) = (filterState_effect (fst a))(ch := filterState_effect (fst b) ch)" and
    r: "params_effect (fst b) = params_effect (fst a)"
       "sampleRate_effect (fst b) = sampleRate_effect (fst a)"
       "bufferSize_effect (fst b) = bufferSize_effect (fst a)"
    by simp_all
  have "snd b k = snd a k" if "k \<ge> B" for k
    using that assms(2) by (subst o) simp
  moreover have "filterState_effect (fst b) c' = filterState_effect (fst a) c'"
    if "c' \<ge> NUM_CHANNELS" for c'
    using that assms(3) by (subst f) simp
  ultimately show ?thesis
    using assms(1) r unfolding b untouched_def by simp
qed

lemma processBlock_untouched:
  "untouched (min (nat numChannels) NUM_CHANNELS * numSamples) (s, out)
     (processBlock s inp out numSamples numChannels)"
  unfolding processBlock_def Let_def
proof (rule fold_invariant_set[where P = "untouched (min (nat numChannels) NUM_CHANNELS * numSamples) (s, out)"])
  show "untouched (min (nat numChannels) NUM_CHANNELS * numSamples) (s, out) (s, out)"
    by (simp add: untouched_def)
next
  fix ch a
  assume ch: "ch \<in> set [0..<min (nat numChannels) NUM_CHANNELS]"
    and a: "untouched (min (nat numChannels) NUM_CHANNELS * numSamples) (s, out) a"
  show "untouched (min (nat numChannels) NUM_CHANNELS * numSamples) (s, out)
          (fold (\<lambda>i. process_one (params_effect s 0) (params_effect s 1) (params_effect s 2) inp ch
                       (ch * numSamples + i) (ch * numSamples + i)) [0..<numSamples] a)"
  proof (rule fold_invariant_set[where P = "untouched (min (nat numChannels) NUM_CHANNELS * numSamples) (s, out)"])
    show "untouched (min (nat numChannels) NUM_CHANNELS * numSamples) (s, out) a" by (rule a)
  next
    fix i b
    assume i: "i \<in> set [0..<numSamples]"
      and b: "untouched (min (nat numChannels) NUM_CHANNELS * numSamples) (s, out) b"
    from ch have c: "ch < min (nat numChannels) NUM_CHANNELS" by simp
    then have "Suc ch \<le> min (nat numChannels) NUM_CHANNELS" by simp
    then have "Suc ch * numSamples \<le> min (nat numChannels) NUM_CHANNELS * numSamples"
      by (rule mult_le_mono1)
    moreover have "ch * numSamples + i < Suc ch * numSamples"
      using i by simp
    ultimately have "ch * numSamples + i < min (nat numChannels) NUM_CHANNELS * numSamples"
      by linarith
    then show "untouched (min (nat numChannels) NUM_CHANNELS * numSamples) (s, out)
        (process_one (params_effect s 0) (params_effect s 1) (params_effect s 2) inp ch
           (ch * numSamples + i) (ch * numSamples + i) b)"
      using c by (intro process_one_untouched[OF b]) simp_all
  qed
qed

lemma process_one_reads:
  assumes "inp src = inp' src"
  shows "process_one g m c inp ch src dst = process_one g m c inp' ch src dst"
  using assms by (simp add: process_one_def fun_eq_iff)

lemma processBlock_reads:
  assumes "\<forall>k < min (nat numChannels) NUM_CHANNELS * numSamples. inp k = inp' k"
  shows "processBlock s inp out numSamples numChannels = processBlock s inp' out numSamples numChannels"
proof -
  let ?m = "min (nat numChannels) NUM_CHANNELS"
  let ?one = "\<lambda>inp ch i. process_one (params_effect s 0) (params_effect s 1) (params_effect s 2)
                 inp ch (ch * numSamples + i) (ch * numSamples + i)"
  have one: "?one inp ch i = ?one inp' ch i" if "ch < ?m" "i < numSamples" for ch i
  proof -
    from that have "Suc ch \<le> ?m" by simp
    then have "Suc ch * numSamples \<le> ?m * numSamples"
      by (rule mult_le_mono1)
    moreover have "ch * numSamples + i < Suc ch * numSamples"
      using that by simp
    ultimately have "ch * numSamples + i < ?m * numSamples"
      by linarith
    with assms have "inp (ch * numSamples + i) = inp' (ch * numSamples + i)" by simp
    then show ?thesis by (rule process_one_reads)
  qed
  have inner: "fold (?one inp ch) [0..<numSamples] a = fold (?one inp' ch) [0..<numSamples] a"
    if "ch < ?m" for ch a
    using that by (intro fold_cong refl one) simp_all
  have "fold (\<lambda>ch. fold (?one inp ch) [0..<numSamples]) [0..<?m] (s, out)
      = fold (\<lambda>ch. fold (?one inp' ch) [0..<numSamples]) [0..<?m] (s, out)"
  proof (intro fold_cong refl)
    fix ch
    assume "ch \<in> set [0..<?m]"
    then have ch: "ch < ?m" by simp
    show "fold (?one inp ch) [0..<numSamples] = fold (?one inp' ch) [0..<numSamples]"
      by (rule ext) (rule inner[OF ch])
  qed
  then show ?thesis
    by (simp add: processBlock_def Let_def)
qed

text \<open>
  C10. \<^verbatim>\<open>processBlock\<close> works on the first \<open>min(numChannels, 2)\<close> planar channels only.
  With \<open>m\<close> that number: every output cell from \<open>m * numSamples\<close> on is left as it was, as
  is every filter state from index 2 on, the parameters and the sample rate, and the
  result does not depend on the input cells from \<open>m * numSamples\<close> on. For
  \<open>numChannels > 2\<close> the call does what the call with 2 channels does, and the output
  regions of the channels 2 and above are unchanged.
\<close>

theorem processBlock_two_channels:
  "(let r = processBlock s inp out numSamples numChannels;
        m = min (nat numChannels) NUM_CHANNELS
    in (\<forall>k \<ge> m * numSamples. snd r k = out k) \<and>
       (\<forall>c \<ge> NUM_CHANNELS. filterState_effect (fst r) c = filterState_effect s c) \<and>
       params_effect (fst r) = params_effect s \<and>
       sampleRate_effect (fst r) = sampleRate_effect s \<and>
       ((\<forall>k < m * numSamples. inp k = inp' k) \<longrightarrow>
          processBlock s inp' out numSamples numChannels = r)) \<and>
   (numChannels > 2 \<longrightarrow>
      processBlock s inp out numSamples numChannels = processBlock s inp out numSamples 2 \<and>
      (\<forall>k \<ge> 2 * numSamples. snd (processBlock s inp out numSamples numChannels) k = out k))"
proof -
  have u: "untouched (min (nat numChannels) NUM_CHANNELS * numSamples) (s, out)
     (processBlock s inp out numSamples numChannels)"
    by (rule processBlock_untouched)
  have two: "processBlock s inp out numSamples numChannels = processBlock s inp out numSamples 2"
    if "numChannels > 2"
    using that by (simp add: processBlock_def min_def)
  have "\<forall>k \<ge> 2 * numSamples. snd (processBlock s inp out numSamples numChannels) k = out k"
    if "numChannels > 2"
  proof -
    from that have "min (nat numChannels) NUM_CHANNELS = 2" by simp
    with u show ?thesis by (simp add: untouched_def)
  qed
  with u two processBlock_reads[of numChannels numSamples inp inp' s out]
  show ?thesis
    by (simp add: Let_def untouched_def)
qed

theorem processBlock_two_channels_witness:
  "snd (processBlock initial_effect (\<lambda>_. Fin 1) (\<lambda>_. Fin 7) 3 4) 6 = Fin 7 \<and>
   snd (processBlock initial_effect (\<lambda>_. Fin 1) (\<lambda>_. Fin 7) 3 4) 11 = Fin 7 \<and>
   filterState_effect (fst (processBlock initial_effect (\<lambda>_. Fin 1) (\<lambda>_. Fin 7) 3 4)) 2
     = filterState_effect initial_effect 2 \<and>
   processBlock initial_effect (\<lambda>_. Fin 1) (\<lambda>_. Fin 7) 3 4
     = processBlock initial_effect (\<lambda>_. Fin 1) (\<lambda>_. Fin 7) 3 2"
  using processBlock_two_channels [where s = initial_effect and inp = "\<lambda>_. Fin 1"
      and inp' = "\<lambda>_. Fin 1" and out = "\<lambda>_. Fin 7" and numSamples = 3 and numChannels = 4]
  by (auto simp: Let_def)

end
